theory Spec2Isabelle
  imports Complex_Main "HOL-Library.AList" "HOL-Library.Log_Nat"
begin

section \<open>JavaScript values and built-ins used by the services\<close>

text \<open>
  The services are TypeScript classes running on Node. A thrown exception or a rejected
  promise is a value \<open>Inl e\<close> of a sum type, a returned or resolved value is \<open>Inr v\<close>.
  An \<open>await\<close> is sequential composition, so an asynchronous method is a function
  that returns such a result.

  A JavaScript number is a double. A finite double is modelled by the rational it
  denotes (\<open>is_double\<close> below says which rationals are doubles). Comparison,
  \<open>Math.floor\<close>, \<open>Math.ceil\<close> and the remainder operator \<open>%\<close> are exact on doubles;
  the quotient and the product are rounded to the nearest double (\<open>fdiv\<close>, \<open>fmul\<close>).
  The non-finite outcomes of a division are written out where the code divides by a probed
  value (\<open>js_ceil_div\<close> below); signed zeros are not told apart.
\<close>

datatype error = Error string | TypeError string

definition andThen :: "error + 'a \<Rightarrow> ('a \<Rightarrow> error + 'b) \<Rightarrow> error + 'b" where
  "andThen r f = (case r of Inl e \<Rightarrow> Inl e | Inr x \<Rightarrow> f x)"

text \<open>
  Rounding to the nearest double, ties to even: 53 significant bits above the exponent
  \<open>-1022\<close>, a fixed step of \<open>2^-1074\<close> below it. \<open>binade x\<close> is the exponent of the
  power of two at or below \<open>|x|\<close>. Overflow is tested where a result can be that large.
\<close>

definition round_half_even :: "rat \<Rightarrow> int" where
  "round_half_even n =
     (let f = \<lfloor>n\<rfloor>; d = n - of_int f
      in if d < 1 / 2 then f else if 1 / 2 < d then f + 1 else if even f then f else f + 1)"

definition binade :: "rat \<Rightarrow> int" where
  "binade x =
     (let (p, q) = quotient_of \<bar>x\<bar>; d = bitlen p - bitlen q
      in if 2 powi d \<le> \<bar>x\<bar> then d else d - 1)"

definition fl :: "rat \<Rightarrow> rat" where
  "fl x =
     (if x = 0 then 0
      else (let e = max (binade x) (- 1022); q = 2 powi (e - 52)
            in of_int (round_half_even (x / q)) * q))"

definition is_double :: "rat \<Rightarrow> bool" where
  "is_double x = (\<exists>m e. x = of_int m * 2 powi e \<and> \<bar>m\<bar> < 2 ^ 53 \<and> - 1074 \<le> e \<and> e \<le> 971)"

definition fdiv :: "rat \<Rightarrow> rat \<Rightarrow> rat" where
  "fdiv x y = fl (x / y)"

definition fmul :: "rat \<Rightarrow> rat \<Rightarrow> rat" where
  "fmul x y = fl (x * y)"

text \<open>\<open>x % y\<close> for \<open>y \<noteq> 0\<close>: the remainder has the sign of the dividend.\<close>

definition js_trunc :: "rat \<Rightarrow> int" where
  "js_trunc q = (if q < 0 then \<lceil>q\<rceil> else \<lfloor>q\<rfloor>)"

definition js_rem :: "rat \<Rightarrow> rat \<Rightarrow> rat" where
  "js_rem x y = x - y * of_int (js_trunc (x / y))"

text \<open>\<open>String(n)\<close> for an integer-valued number below \<open>10^21\<close> in magnitude.\<close>

fun digits_of :: "nat \<Rightarrow> string" where
  "digits_of n =
     (if n < 10 then [''0123456789'' ! n]
      else digits_of (n div 10) @ [''0123456789'' ! (n mod 10)])"

declare digits_of.simps [simp del]

definition String_of :: "int \<Rightarrow> string" where
  "String_of i = (if i < 0 then CHR ''-'' # digits_of (nat (- i)) else digits_of (nat i))"

text \<open>\<open>s.padStart(w, c)\<close> with a pad string of one character.\<close>

definition padStart :: "nat \<Rightarrow> char \<Rightarrow> string \<Rightarrow> string" where
  "padStart w c s = replicate (w - length s) c @ s"

text \<open>\<open>s.replace(/pat/g, rep)\<close> for a literal, non-empty pattern: left to right, without overlap.\<close>

function replaceAll :: "string \<Rightarrow> string \<Rightarrow> string \<Rightarrow> string" where
  "replaceAll pat rep [] = []"
| "replaceAll pat rep (c # cs) =
     (if pat \<noteq> [] \<and> take (length pat) (c # cs) = pat
      then rep @ replaceAll pat rep (drop (length pat) (c # cs))
      else c # replaceAll pat rep cs)"
  by pat_completeness auto
termination
  by (relation "measure (\<lambda>(pat, rep, s). length s)") auto

text \<open>\<open>s.trim()\<close> and \<open>s.split(',')\<close>, on the ASCII white space.\<close>

definition is_space :: "char \<Rightarrow> bool" where
  "is_space c = (c \<in> set [CHR '' '', CHR 0x09, CHR 0x0A, CHR 0x0B, CHR 0x0C, CHR 0x0D])"

definition trim :: "string \<Rightarrow> string" where
  "trim s = rev (dropWhile is_space (rev (dropWhile is_space s)))"

fun split_on :: "char \<Rightarrow> string \<Rightarrow> string list" where
  "split_on c [] = [[]]"
| "split_on c (x # xs) =
     (if x = c then [] # split_on c xs
      else (case split_on c xs of [] \<Rightarrow> [[x]] | w # ws \<Rightarrow> (x # w) # ws))"

text \<open>
  A value of type \<open>any\<close>, as \<open>JSON.parse\<close> produces it. An array is an object too and
  takes named properties beside its elements. \<open>undefined\<close> is \<open>None\<close> where a property
  is read.
\<close>

datatype json =
    JNull
  | JBool bool
  | JNum rat
  | JStr string
  | JArr "json list" "(string \<times> json) list"
  | JObj "(string \<times> json) list"

text \<open>\<open>data.k\<close> for the property names read here (none of them is on a prototype).\<close>

fun get_prop :: "json \<Rightarrow> string \<Rightarrow> error + json option" where
  "get_prop JNull k = Inl (TypeError ''Cannot read properties of null'')"
| "get_prop (JObj ps) k = Inr (map_of ps k)"
| "get_prop (JArr xs ps) k = Inr (map_of ps k)"
| "get_prop _ k = Inr None"

text \<open>\<open>data.k = v\<close>; the modules are compiled in strict mode, where it throws on a primitive.\<close>

fun set_prop :: "json \<Rightarrow> string \<Rightarrow> json \<Rightarrow> error + json" where
  "set_prop JNull k v = Inl (TypeError ''Cannot set properties of null'')"
| "set_prop (JObj ps) k v = Inr (JObj (AList.update k v ps))"
| "set_prop (JArr xs ps) k v = Inr (JArr xs (AList.update k v ps))"
| "set_prop _ k v = Inl (TypeError ''Cannot create property'')"

fun truthy :: "json option \<Rightarrow> bool" where
  "truthy None = False"
| "truthy (Some JNull) = False"
| "truthy (Some (JBool b)) = b"
| "truthy (Some (JNum n)) = (n \<noteq> 0)"
| "truthy (Some (JStr s)) = (s \<noteq> [])"
| "truthy (Some (JArr xs ps)) = True"
| "truthy (Some (JObj ps)) = True"

fun isArray :: "json option \<Rightarrow> bool" where
  "isArray (Some (JArr xs ps)) = True"
| "isArray _ = False"

fun array_length :: "json option \<Rightarrow> nat" where
  "array_length (Some (JArr xs ps)) = length xs"
| "array_length _ = 0"

section \<open>Data model (common/interfaces/video-generation.interface.ts)\<close>

record VisualPrompt =
  vp_index :: int
  vp_prompt :: string
  vp_duration :: rat

record TimestampSegment =
  ts_start :: rat
  ts_end :: rat
  ts_text :: string

record ScriptData =
  script :: string
  visual_prompts :: "VisualPrompt list"
  timestamps :: "TimestampSegment list"

record MediaFiles =
  audioPath :: string
  videoPaths :: "string list"
  subtitlePath :: string

record UploadUrls =
  youtube :: "string option"
  tiktok :: "string option"

text \<open>The same objects seen at type \<open>any\<close>.\<close>

definition json_of_VisualPrompt :: "VisualPrompt \<Rightarrow> json" where
  "json_of_VisualPrompt v =
     JObj [(''index'', JNum (of_int (vp_index v))), (''prompt'', JStr (vp_prompt v)),
           (''duration'', JNum (vp_duration v))]"

definition json_of_TimestampSegment :: "TimestampSegment \<Rightarrow> json" where
  "json_of_TimestampSegment t =
     JObj [(''start'', JNum (ts_start t)), (''end'', JNum (ts_end t)), (''text'', JStr (ts_text t))]"

definition json_of_ScriptData :: "ScriptData \<Rightarrow> json" where
  "json_of_ScriptData d =
     JObj [(''script'', JStr (script d)),
           (''visual_prompts'', JArr (map json_of_VisualPrompt (visual_prompts d)) []),
           (''timestamps'', JArr (map json_of_TimestampSegment (timestamps d)) [])]"

section \<open>ScriptService (modules/script/script.service.ts)\<close>

definition createFallbackScript :: "string \<Rightarrow> ScriptData" where
  "createFallbackScript p =
     \<lparr> script = ''This is a video about '' @ p @ ''. We'll explore this fascinating topic in detail.'',
       visual_prompts =
         [ \<lparr> vp_index = 0, vp_prompt = ''Cinematic scene showing '' @ p, vp_duration = 10 \<rparr>,
           \<lparr> vp_index = 1, vp_prompt = ''Close-up details of '' @ p, vp_duration = 10 \<rparr>,
           \<lparr> vp_index = 2, vp_prompt = ''Wide angle view of '' @ p, vp_duration = 10 \<rparr> ],
       timestamps =
         [ \<lparr> ts_start = 0, ts_end = 10, ts_text = ''This is a video about '' @ p @ ''.'' \<rparr>,
           \<lparr> ts_start = 10, ts_end = 20, ts_text = ''We'll explore this fascinating topic'' \<rparr>,
           \<lparr> ts_start = 20, ts_end = 30, ts_text = ''in detail.'' \<rparr> ] \<rparr>"

definition default_visual_prompts :: json where
  "default_visual_prompts =
     JArr [JObj [(''index'', JNum 0), (''prompt'', JStr ''Cinematic video scene''),
                 (''duration'', JNum 10)]] []"

text \<open>\<open>data.script.substring(0, 100)\<close>: a method of strings only.\<close>

fun script_substring :: "json option \<Rightarrow> error + string" where
  "script_substring (Some (JStr s)) = Inr (take 100 s)"
| "script_substring _ = Inl (TypeError ''data.script.substring is not a function'')"

definition validateScriptData :: "json \<Rightarrow> error + json" where
  "validateScriptData data =
     andThen (get_prop data ''script'') (\<lambda>s.
     andThen (if \<not> truthy s then set_prop data ''script'' (JStr ''Generated video content.'')
              else Inr data) (\<lambda>d1.
     andThen (get_prop d1 ''visual_prompts'') (\<lambda>vps.
     andThen (if \<not> isArray vps \<or> array_length vps = 0
              then set_prop d1 ''visual_prompts'' default_visual_prompts
              else Inr d1) (\<lambda>d2.
     andThen (get_prop d2 ''timestamps'') (\<lambda>tss.
       if \<not> isArray tss \<or> array_length tss = 0
       then andThen (get_prop d2 ''script'') (\<lambda>s2.
            andThen (script_substring s2) (\<lambda>sub.
              set_prop d2 ''timestamps''
                (JArr [JObj [(''start'', JNum 0), (''end'', JNum 10), (''text'', JStr sub)]] [])))
       else Inr d2)))))"

text \<open>
  The environment of one call of \<open>generateScript\<close>: whether the constructor found an API
  key, what the model call and \<open>response.text()\<close> give for the prompt, \<open>JSON.parse\<close>,
  and whether \<open>saveToDebug\<close> can write the named file.
\<close>

record script_env =
  genAI :: bool
  generateContent :: "string \<Rightarrow> error + string"
  JSON_parse :: "string \<Rightarrow> error + json"
  script_saveToDebug :: "string \<Rightarrow> error + unit"

definition strip_code_fences :: "string \<Rightarrow> string" where
  "strip_code_fences t =
     trim (replaceAll ''```'' []
            (replaceAll (''```'' @ [CHR 0x0A]) []
              (replaceAll (''```json'' @ [CHR 0x0A]) [] t)))"

definition script_attempt :: "script_env \<Rightarrow> string \<Rightarrow> string \<Rightarrow> error + json" where
  "script_attempt env p jobId =
     andThen (generateContent env p) (\<lambda>t.
     andThen (validateScriptData
                (case JSON_parse env (strip_code_fences t) of
                   Inl parseError \<Rightarrow> json_of_ScriptData (createFallbackScript p)
                 | Inr scriptData \<Rightarrow> scriptData)) (\<lambda>scriptData.
     andThen (script_saveToDebug env (jobId @ ''_script.json'')) (\<lambda>_.
       Inr scriptData)))"

definition generateScript :: "script_env \<Rightarrow> string \<Rightarrow> string \<Rightarrow> error + json" where
  "generateScript env p jobId =
     (if \<not> genAI env
      then andThen (script_saveToDebug env (jobId @ ''_script.json''))
             (\<lambda>_. Inr (json_of_ScriptData (createFallbackScript p)))
      else (case script_attempt env p jobId of
              Inl e \<Rightarrow> Inr (json_of_ScriptData (createFallbackScript p))
            | Inr scriptData \<Rightarrow> Inr scriptData))"

section \<open>MediaService (modules/media/media.service.ts)\<close>

definition formatSrtTime :: "rat \<Rightarrow> string" where
  "formatSrtTime seconds =
     (let hours = \<lfloor>fdiv seconds 3600\<rfloor>;
          minutes = \<lfloor>fdiv (js_rem seconds 3600) 60\<rfloor>;
          secs = \<lfloor>js_rem seconds 60\<rfloor>;
          millis = \<lfloor>fmul (js_rem seconds 1) 1000\<rfloor>
      in padStart 2 CHR ''0'' (String_of hours) @ '':'' @
         padStart 2 CHR ''0'' (String_of minutes) @ '':'' @
         padStart 2 CHR ''0'' (String_of secs) @ '','' @
         padStart 3 CHR ''0'' (String_of millis))"

text \<open>One block of the subtitle file: \<open>index\<close> is the position of the segment, from 0.\<close>

definition srt_block :: "nat \<Rightarrow> TimestampSegment \<Rightarrow> string" where
  "srt_block idx segment =
     String_of (int idx + 1) @ [CHR 0x0A] @
     formatSrtTime (ts_start segment) @ '' --> '' @ formatSrtTime (ts_end segment) @ [CHR 0x0A] @
     ts_text segment @ [CHR 0x0A, CHR 0x0A]"

definition srtContent :: "TimestampSegment list \<Rightarrow> string" where
  "srtContent tss = concat (map (\<lambda>(idx, segment). srt_block idx segment) (enumerate 0 tss))"

text \<open>
  The environment of one call of \<open>generateMedia\<close>. Each field is the outcome of one
  external call at one place of the code: a shell command run by \<open>execAsync\<close>, the HTTP
  request to the video model with the two file writes that follow it, or the write of the
  subtitle file (a path and its content).
  The calls made for a visual prompt are indexed by the position of the prompt in the
  array, and the placeholder command has one outcome for its run inside
  \<open>generateSingleVideo\<close> and one for its run in the \<open>catch\<close> of \<open>generateVideos\<close>.
\<close>

record media_env =
  getTempPath :: "string \<Rightarrow> string"
  hfApiKey :: "string option"
  edge_tts :: "error + unit"
  audio_saveToDebug :: "error + unit"
  silent_audio :: "error + unit"
  hf_request :: "nat \<Rightarrow> error + unit"
  placeholder_inner :: "nat \<Rightarrow> error + unit"
  placeholder_outer :: "nat \<Rightarrow> error + unit"
  subtitles_write :: "string \<Rightarrow> string \<Rightarrow> error + unit"

definition createSilentAudio :: "media_env \<Rightarrow> string \<Rightarrow> error + string" where
  "createSilentAudio env jobId =
     (case silent_audio env of
        Inr _ \<Rightarrow> Inr (getTempPath env (jobId @ ''_audio.mp3''))
      | Inl e \<Rightarrow> Inl e)"

definition generateAudio :: "media_env \<Rightarrow> string \<Rightarrow> string \<Rightarrow> error + string" where
  "generateAudio env scr jobId =
     (case andThen (edge_tts env) (\<lambda>_. audio_saveToDebug env) of
        Inr _ \<Rightarrow> Inr (getTempPath env (jobId @ ''_audio.mp3''))
      | Inl e \<Rightarrow> createSilentAudio env jobId)"

definition clip_path :: "media_env \<Rightarrow> string \<Rightarrow> VisualPrompt \<Rightarrow> string" where
  "clip_path env jobId p = getTempPath env (jobId @ ''_clip_'' @ String_of (vp_index p) @ ''.mp4'')"

text \<open>\<open>createPlaceholderVideo\<close>, given the outcome of its ffmpeg command.\<close>

definition createPlaceholderVideo ::
  "media_env \<Rightarrow> error + unit \<Rightarrow> VisualPrompt \<Rightarrow> string \<Rightarrow> error + string" where
  "createPlaceholderVideo env run p jobId =
     (case run of Inr _ \<Rightarrow> Inr (clip_path env jobId p) | Inl e \<Rightarrow> Inl e)"

definition generateSingleVideo ::
  "media_env \<Rightarrow> nat \<Rightarrow> VisualPrompt \<Rightarrow> string \<Rightarrow> error + string" where
  "generateSingleVideo env i p jobId =
     (if hfApiKey env = None \<or> hfApiKey env = Some []
      then createPlaceholderVideo env (placeholder_inner env i) p jobId
      else (case hf_request env i of
              Inr _ \<Rightarrow> Inr (clip_path env jobId p)
            | Inl e \<Rightarrow> createPlaceholderVideo env (placeholder_inner env i) p jobId))"

text \<open>The \<open>for\<close> loop of \<open>generateVideos\<close>: \<open>i\<close> is the position reached, \<open>acc\<close> is \<open>videoPaths\<close>.\<close>

fun generateVideos_loop ::
  "media_env \<Rightarrow> string \<Rightarrow> nat \<Rightarrow> VisualPrompt list \<Rightarrow> string list \<Rightarrow> error + string list" where
  "generateVideos_loop env jobId i [] acc = Inr acc"
| "generateVideos_loop env jobId i (p # ps) acc =
     (case generateSingleVideo env i p jobId of
        Inr videoPath \<Rightarrow> generateVideos_loop env jobId (Suc i) ps (acc @ [videoPath])
      | Inl e \<Rightarrow>
          (case createPlaceholderVideo env (placeholder_outer env i) p jobId of
             Inr placeholderPath \<Rightarrow> generateVideos_loop env jobId (Suc i) ps (acc @ [placeholderPath])
           | Inl e' \<Rightarrow> Inl e'))"

definition generateVideos :: "media_env \<Rightarrow> VisualPrompt list \<Rightarrow> string \<Rightarrow> error + string list" where
  "generateVideos env visualPrompts jobId = generateVideos_loop env jobId 0 visualPrompts []"

definition generateSubtitles :: "media_env \<Rightarrow> TimestampSegment list \<Rightarrow> string \<Rightarrow> error + string" where
  "generateSubtitles env tss jobId =
     (let outputPath = getTempPath env (jobId @ ''_subtitles.srt'')
      in case subtitles_write env outputPath (srtContent tss) of
           Inr _ \<Rightarrow> Inr outputPath
         | Inl e \<Rightarrow> Inl e)"

definition generateMedia :: "media_env \<Rightarrow> ScriptData \<Rightarrow> string \<Rightarrow> error + MediaFiles" where
  "generateMedia env scriptData jobId =
     andThen (generateAudio env (script scriptData) jobId) (\<lambda>a.
     andThen (generateVideos env (visual_prompts scriptData) jobId) (\<lambda>vs.
     andThen (generateSubtitles env (timestamps scriptData) jobId) (\<lambda>s.
       Inr \<lparr> audioPath = a, videoPaths = vs, subtitlePath = s \<rparr>)))"

section \<open>EditorService (modules/editor/editor.service.ts)\<close>

text \<open>
  \<open>Math.ceil(targetDuration / videoDuration)\<close>: finite when the divisor is not zero
  and the quotient does not overflow, and one of the three non-finite numbers otherwise.
\<close>

datatype loop_count = Finite int | Infinity | NegInfinity | NaN

definition js_ceil_div :: "rat \<Rightarrow> rat \<Rightarrow> loop_count" where
  "js_ceil_div a v =
     (if v = 0 then (if 0 < a then Infinity else if a < 0 then NegInfinity else NaN)
      else if 2 ^ 1024 \<le> fdiv a v then Infinity
      else if fdiv a v \<le> - (2 ^ 1024) then NegInfinity
      else Finite \<lceil>fdiv a v\<rceil>)"

fun minus_one :: "loop_count \<Rightarrow> loop_count" where
  "minus_one (Finite n) = Finite (n - 1)"
| "minus_one c = c"

text \<open>
  What the service hands to the processing tool. \<open>TrimCommand i d out\<close> is
  \<open>Ffmpeg(i).setDuration(d).output(out)\<close>; \<open>LoopCommand i n d out\<close> has the input option
  \<open>-stream_loop n\<close> besides; \<open>MuxCommand v a opts out\<close> is the last step with its output
  options.
\<close>

datatype ffmpeg_command =
    MergeCommand "string list" string
  | TrimCommand string rat string
  | LoopCommand string loop_count rat string
  | MuxCommand string string "string list" string

text \<open>
  The environment of one call of \<open>assembleVideo\<close>: the outcome of each run of the tool
  and of each of the three \<open>ffprobe\<close> calls (the duration read from the metadata, or the
  error handed to the callback).
\<close>

record editor_env =
  ed_getTempPath :: "string \<Rightarrow> string"
  merge_run :: "error + unit"
  probe_audio :: "error + rat"
  probe_video :: "error + rat"
  loop_probe :: "error + rat"
  trim_run :: "error + unit"
  loop_run :: "error + unit"
  mux_run :: "error + unit"

definition run_to :: "error + unit \<Rightarrow> 'a \<Rightarrow> error + 'a" where
  "run_to run out = (case run of Inr _ \<Rightarrow> Inr out | Inl e \<Rightarrow> Inl e)"

definition concatenateVideos ::
  "editor_env \<Rightarrow> string list \<Rightarrow> string \<Rightarrow> (error + string) \<times> ffmpeg_command list" where
  "concatenateVideos env vps jobId =
     (let outputPath = ed_getTempPath env (jobId @ ''_concatenated.mp4'')
      in (run_to (merge_run env) outputPath, [MergeCommand vps outputPath]))"

definition trimVideo ::
  "editor_env \<Rightarrow> string \<Rightarrow> rat \<Rightarrow> string \<Rightarrow> (error + string) \<times> ffmpeg_command list" where
  "trimVideo env videoPath dur jobId =
     (let outputPath = ed_getTempPath env (jobId @ ''_trimmed.mp4'')
      in (run_to (trim_run env) outputPath, [TrimCommand videoPath dur outputPath]))"

definition loopVideo ::
  "editor_env \<Rightarrow> string \<Rightarrow> rat \<Rightarrow> string \<Rightarrow> (error + string) \<times> ffmpeg_command list" where
  "loopVideo env videoPath targetDuration jobId =
     (let outputPath = ed_getTempPath env (jobId @ ''_looped.mp4'')
      in case loop_probe env of
           Inl err \<Rightarrow> (Inl err, [])
         | Inr videoDuration \<Rightarrow>
             (let loopCount = js_ceil_div targetDuration videoDuration
              in (run_to (loop_run env) outputPath,
                  [LoopCommand videoPath (minus_one loopCount) targetDuration outputPath])))"

definition loopVideoToMatchAudio ::
  "editor_env \<Rightarrow> string \<Rightarrow> string \<Rightarrow> string \<Rightarrow> (error + string) \<times> ffmpeg_command list" where
  "loopVideoToMatchAudio env videoPath audio jobId =
     (case probe_audio env of
        Inl err \<Rightarrow> (Inr videoPath, [])
      | Inr audioDuration \<Rightarrow>
          (case probe_video env of
             Inl err \<Rightarrow> (Inr videoPath, [])
           | Inr videoDuration \<Rightarrow>
               if videoDuration \<ge> audioDuration
               then trimVideo env videoPath audioDuration jobId
               else loopVideo env videoPath audioDuration jobId))"

definition escapeSubtitlePath :: "string \<Rightarrow> string" where
  "escapeSubtitlePath p = replaceAll '':'' [CHR 0x5C, CHR '':''] (replaceAll [CHR 0x5C] ''/'' p)"

definition addAudioAndSubtitles ::
  "editor_env \<Rightarrow> string \<Rightarrow> string \<Rightarrow> string \<Rightarrow> string \<Rightarrow> (error + unit) \<times> ffmpeg_command list" where
  "addAudioAndSubtitles env videoPath audio subtitle outputPath =
     (let escapedSubtitlePath = escapeSubtitlePath subtitle
      in (mux_run env,
          [MuxCommand videoPath audio
             [''-c:v libx264'', ''-c:a aac'', ''-map 0:v:0'', ''-map 1:a:0'', ''-shortest'',
              ''-vf subtitles='' @ [CHR 0x27] @ escapedSubtitlePath @ [CHR 0x27]]
             outputPath]))"

definition assembleVideo ::
  "editor_env \<Rightarrow> MediaFiles \<Rightarrow> string \<Rightarrow> (error + string) \<times> ffmpeg_command list" where
  "assembleVideo env mediaFiles jobId =
     (let outputPath = ed_getTempPath env (jobId @ ''_output.mp4'');
          (r1, c1) = concatenateVideos env (videoPaths mediaFiles) jobId
      in case r1 of
           Inl e \<Rightarrow> (Inl e, c1)
         | Inr concatenatedVideoPath \<Rightarrow>
             (let (r2, c2) =
                    loopVideoToMatchAudio env concatenatedVideoPath (audioPath mediaFiles) jobId
              in case r2 of
                   Inl e \<Rightarrow> (Inl e, c1 @ c2)
                 | Inr loopedVideoPath \<Rightarrow>
                     (let (r3, c3) =
                            addAudioAndSubtitles env loopedVideoPath (audioPath mediaFiles)
                              (subtitlePath mediaFiles) outputPath
                      in case r3 of
                           Inl e \<Rightarrow> (Inl e, c1 @ c2 @ c3)
                         | Inr _ \<Rightarrow> (Inr outputPath, c1 @ c2 @ c3))))"

section \<open>PublisherService (modules/publisher/publisher.service.ts)\<close>

text \<open>
  The environment of one call of \<open>uploadToSocial\<close>: whether the constructor built the
  YouTube client, what \<open>videos.insert\<close> gives (the id of the video), and the TikTok
  access token of the configuration.
\<close>

record publisher_env =
  youtube_client :: bool
  videos_insert :: "error + string"
  tiktok_access_token :: "string option"

definition uploadToYouTube :: "publisher_env \<Rightarrow> error + string" where
  "uploadToYouTube env =
     (if \<not> youtube_client env
      then Inl (Error ''YouTube client not initialized. Please configure YouTube credentials.'')
      else (case videos_insert env of
              Inr videoId \<Rightarrow> Inr (''https://www.youtube.com/watch?v='' @ videoId)
            | Inl e \<Rightarrow> Inl e))"

definition uploadToTikTok :: "publisher_env \<Rightarrow> error + string" where
  "uploadToTikTok env =
     (if tiktok_access_token env = None \<or> tiktok_access_token env = Some []
      then Inl (Error ''TikTok access token not configured'')
      else Inr ''https://tiktok.com/@user/video/placeholder'')"

definition uploadToSocial ::
  "publisher_env \<Rightarrow> string \<Rightarrow> string \<Rightarrow> string \<Rightarrow> string list \<Rightarrow> bool \<Rightarrow> bool \<Rightarrow> UploadUrls" where
  "uploadToSocial env videoPath title description tags toYoutube toTiktok =
     (let uploadUrls = \<lparr> youtube = None, tiktok = None \<rparr>;
          uploadUrls =
            (if toYoutube
             then (case uploadToYouTube env of
                     Inr url \<Rightarrow> uploadUrls \<lparr> youtube := Some url \<rparr>
                   | Inl e \<Rightarrow> uploadUrls)
             else uploadUrls);
          uploadUrls =
            (if toTiktok
             then (case uploadToTikTok env of
                     Inr url \<Rightarrow> uploadUrls \<lparr> tiktok := Some url \<rparr>
                   | Inl e \<Rightarrow> uploadUrls)
             else uploadUrls)
      in uploadUrls)"

section \<open>VideoGenerationProcessor (queues/video-generation.processor.ts)\<close>

record VideoGenerationJobData =
  jd_jobId :: string
  jd_prompt :: string
  uploadToYoutube :: "bool option"
  uploadToTiktok :: "bool option"
  jd_title :: "string option"
  jd_description :: "string option"
  jd_tags :: "string option"

text \<open>The job of the queue: its data, and whether \<open>job.progress(n)\<close> goes through.\<close>

record job =
  job_data :: VideoGenerationJobData
  job_progress :: "nat \<Rightarrow> error + unit"

text \<open>The four injected services, as the processor sees them.\<close>

record ('sd, 'mf) services =
  svc_generateScript :: "string \<Rightarrow> string \<Rightarrow> error + 'sd"
  svc_generateMedia :: "'sd \<Rightarrow> string \<Rightarrow> error + 'mf"
  svc_assembleVideo :: "'mf \<Rightarrow> string \<Rightarrow> error + string"
  svc_uploadToSocial ::
    "string \<Rightarrow> string \<Rightarrow> string \<Rightarrow> string list \<Rightarrow> bool \<Rightarrow> bool \<Rightarrow> error + UploadUrls"

record 'sd JobResult =
  res_success :: bool
  res_jobId :: string
  res_finalVideoPath :: string
  res_uploadUrls :: UploadUrls
  res_scriptData :: 'sd

text \<open>
  What an observer of the job sees, in order: a progress value accepted by the queue, and
  the return of an awaited stage call.
\<close>

datatype stage = ScriptStage | MediaStage | AssemblyStage | PublishStage

datatype event = Reported nat | Completed stage

type_synonym 'a traced = "event list \<Rightarrow> (error + 'a) \<times> event list"

definition thenT :: "'a traced \<Rightarrow> ('a \<Rightarrow> 'b traced) \<Rightarrow> 'b traced" where
  "thenT m f = (\<lambda>tr. case m tr of (Inl e, tr') \<Rightarrow> (Inl e, tr') | (Inr x, tr') \<Rightarrow> f x tr')"

definition progress :: "job \<Rightarrow> nat \<Rightarrow> unit traced" where
  "progress j n = (\<lambda>tr. case job_progress j n of
                          Inr _ \<Rightarrow> (Inr (), tr @ [Reported n])
                        | Inl e \<Rightarrow> (Inl e, tr))"

definition await :: "stage \<Rightarrow> error + 'a \<Rightarrow> 'a traced" where
  "await st r = (\<lambda>tr. case r of Inr x \<Rightarrow> (Inr x, tr @ [Completed st]) | Inl e \<Rightarrow> (Inl e, tr))"

definition returnT :: "'a \<Rightarrow> 'a traced" where
  "returnT x = (\<lambda>tr. (Inr x, tr))"

text \<open>\<open>a || b\<close> on optional values.\<close>

definition flag :: "bool option \<Rightarrow> bool" where
  "flag b = (b = Some True)"

definition or_default :: "string option \<Rightarrow> string \<Rightarrow> string" where
  "or_default s d = (case s of None \<Rightarrow> d | Some t \<Rightarrow> if t = [] then d else t)"

definition videoTags :: "string option \<Rightarrow> string list" where
  "videoTags tags =
     (case tags of
        None \<Rightarrow> [''AI'', ''Generated'', ''Video'']
      | Some t \<Rightarrow> if t = [] then [''AI'', ''Generated'', ''Video''] else map trim (split_on CHR '','' t))"

definition handleVideoGeneration ::
  "('sd, 'mf) services \<Rightarrow> job \<Rightarrow> (error + 'sd JobResult) \<times> event list" where
  "handleVideoGeneration svc j =
     (let d = job_data j; jobId = jd_jobId d; p = jd_prompt d
      in
      thenT (progress j 10) (\<lambda>_.
      thenT (await ScriptStage (svc_generateScript svc p jobId)) (\<lambda>scriptData.
      thenT (progress j 25) (\<lambda>_.
      thenT (await MediaStage (svc_generateMedia svc scriptData jobId)) (\<lambda>mediaFiles.
      thenT (progress j 50) (\<lambda>_.
      thenT (await AssemblyStage (svc_assembleVideo svc mediaFiles jobId)) (\<lambda>finalVideoPath.
      thenT (progress j 75) (\<lambda>_.
      thenT (if flag (uploadToYoutube d) \<or> flag (uploadToTiktok d)
             then await PublishStage
                    (svc_uploadToSocial svc finalVideoPath
                       (or_default (jd_title d) (''AI Generated Video: '' @ p))
                       (or_default (jd_description d)
                          (''This video was automatically generated about: '' @ p))
                       (videoTags (jd_tags d))
                       (flag (uploadToYoutube d)) (flag (uploadToTiktok d)))
             else returnT \<lparr> youtube = None, tiktok = None \<rparr>) (\<lambda>uploadUrls.
      thenT (progress j 90) (\<lambda>_.
      thenT (progress j 100) (\<lambda>_.
        returnT \<lparr> res_success = True, res_jobId = jobId, res_finalVideoPath = finalVideoPath,
                  res_uploadUrls = uploadUrls, res_scriptData = scriptData \<rparr>))))))))))
      [])"

section \<open>Notions used in the statements\<close>

text \<open>The progress values of a trace, in the order they were reported.\<close>

definition reported :: "event list \<Rightarrow> nat list" where
  "reported tr = concat (map (\<lambda>e. case e of Reported n \<Rightarrow> [n] | Completed s \<Rightarrow> []) tr)"

text \<open>Subtitle cues that follow each other without gap or overlap, each of positive length.\<close>

fun contiguous :: "TimestampSegment list \<Rightarrow> bool" where
  "contiguous [] = True"
| "contiguous [t] = (ts_start t < ts_end t)"
| "contiguous (t # u # r) = (ts_start t < ts_end t \<and> ts_end t = ts_start u \<and> contiguous (u # r))"



text \<open>The key of \<open>uploadUrls\<close> after one upload: present with the URL, or absent.\<close>

definition url_of :: "error + string \<Rightarrow> string option" where
  "url_of r = (case r of Inr url \<Rightarrow> Some url | Inl e \<Rightarrow> None)"

text \<open>
  The shape \<open>\d{2}:\d{2}:\d{2},\d{3}\<close> of a whole string, and the decimal digits of a
  field written at a fixed width.
\<close>

definition is_digit :: "char \<Rightarrow> bool" where
  "is_digit c = (c \<in> set ''0123456789'')"

fun srt_pattern :: "string \<Rightarrow> bool" where
  "srt_pattern [h1, h2, c1, m1, m2, c2, s1, s2, c3, l1, l2, l3] =
     (is_digit h1 \<and> is_digit h2 \<and> c1 = CHR '':'' \<and> is_digit m1 \<and> is_digit m2 \<and> c2 = CHR '':'' \<and>
      is_digit s1 \<and> is_digit s2 \<and> c3 = CHR '','' \<and> is_digit l1 \<and> is_digit l2 \<and> is_digit l3)"
| "srt_pattern _ = False"

definition digit :: "nat \<Rightarrow> char" where
  "digit n = ''0123456789'' ! n"

definition two_digits :: "nat \<Rightarrow> string" where
  "two_digits n = [digit (n div 10), digit (n mod 10)]"

definition three_digits :: "nat \<Rightarrow> string" where
  "three_digits n = [digit (n div 100), digit (n div 10 mod 10), digit (n mod 10)]"

text \<open>\<open>x mod y\<close> on the numbers, as the specification writes the fields of a time.\<close>

definition rmod :: "rat \<Rightarrow> rat \<Rightarrow> rat" where
  "rmod x y = x - y * of_int \<lfloor>x / y\<rfloor>"

text \<open>
  Reading a script object the way the downstream stages do: the value of a property
  (\<open>None\<close> for \<open>undefined\<close>), and the shapes a field can have.
\<close>

definition field_of :: "json \<Rightarrow> string \<Rightarrow> json option" where
  "field_of d k = (case get_prop d k of Inr v \<Rightarrow> v | Inl e \<Rightarrow> None)"

fun is_object :: "json \<Rightarrow> bool" where
  "is_object (JObj ps) = True"
| "is_object (JArr xs ps) = True"
| "is_object _ = False"

fun nonempty_string :: "json option \<Rightarrow> bool" where
  "nonempty_string (Some (JStr s)) = (s \<noteq> [])"
| "nonempty_string _ = False"

definition nonempty_array :: "json option \<Rightarrow> bool" where
  "nonempty_array v = (isArray v \<and> 0 < array_length v)"

fun string_or_falsy :: "json option \<Rightarrow> bool" where
  "string_or_falsy (Some (JStr s)) = True"
| "string_or_falsy v = (\<not> truthy v)"

text \<open>The three steps of \<open>validateScriptData\<close>, one per field.\<close>

definition ensure_script :: "json \<Rightarrow> error + json" where
  "ensure_script d =
     andThen (get_prop d ''script'') (\<lambda>s.
       if \<not> truthy s then set_prop d ''script'' (JStr ''Generated video content.'') else Inr d)"

definition ensure_visual_prompts :: "json \<Rightarrow> error + json" where
  "ensure_visual_prompts d =
     andThen (get_prop d ''visual_prompts'') (\<lambda>vps.
       if \<not> isArray vps \<or> array_length vps = 0
       then set_prop d ''visual_prompts'' default_visual_prompts else Inr d)"

definition ensure_timestamps :: "json \<Rightarrow> error + json" where
  "ensure_timestamps d =
     andThen (get_prop d ''timestamps'') (\<lambda>tss.
       if \<not> isArray tss \<or> array_length tss = 0
       then andThen (get_prop d ''script'') (\<lambda>s2.
            andThen (script_substring s2) (\<lambda>sub.
              set_prop d ''timestamps''
                (JArr [JObj [(''start'', JNum 0), (''end'', JNum 10), (''text'', JStr sub)]] [])))
       else Inr d)"

text \<open>
  A clip for the cue at position \<open>i\<close> can be produced: the request to the video model
  goes through, or one of the two runs of the placeholder command does.
\<close>

definition clip_available :: "media_env \<Rightarrow> nat \<Rightarrow> bool" where
  "clip_available env i =
     ((hfApiKey env \<noteq> None \<and> hfApiKey env \<noteq> Some [] \<and> hf_request env i = Inr ())
      \<or> placeholder_inner env i = Inr () \<or> placeholder_outer env i = Inr ())"

subsection \<open>Sample environments\<close>

definition sample_editor_env :: editor_env where
  "sample_editor_env =
     \<lparr> ed_getTempPath = (\<lambda>f. ''temp/'' @ f), merge_run = Inr (), probe_audio = Inr 35,
       probe_video = Inr 10, loop_probe = Inr 10, trim_run = Inr (), loop_run = Inr (),
       mux_run = Inr () \<rparr>"

definition sample_media_files :: MediaFiles where
  "sample_media_files =
     \<lparr> audioPath = ''temp/j_audio.mp3'', videoPaths = [''temp/j_clip_0.mp4''],
       subtitlePath = ''temp/j_subtitles.srt'' \<rparr>"

definition sample_services :: "(string, string) services" where
  "sample_services =
     \<lparr> svc_generateScript = (\<lambda>p jobId. Inr (''script about '' @ p)),
       svc_generateMedia = (\<lambda>sd jobId. Inr (''temp/'' @ jobId @ ''_audio.mp3'')),
       svc_assembleVideo = (\<lambda>mf jobId. Inr (''temp/'' @ jobId @ ''_output.mp4'')),
       svc_uploadToSocial = (\<lambda>v t d tags y k. Inl (Error ''not called'')) \<rparr>"

definition sample_job :: "bool option \<Rightarrow> bool option \<Rightarrow> job" where
  "sample_job y t =
     \<lparr> job_data = \<lparr> jd_jobId = ''j'', jd_prompt = ''space'', uploadToYoutube = y,
                    uploadToTiktok = t, jd_title = None, jd_description = None, jd_tags = None \<rparr>,
       job_progress = (\<lambda>n. Inr ()) \<rparr>"

text \<open>A publisher without YouTube credentials and with a TikTok token.\<close>

definition sample_publisher_env :: publisher_env where
  "sample_publisher_env =
     \<lparr> youtube_client = False, videos_insert = Inl (Error ''no client''),
       tiktok_access_token = Some ''token'' \<rparr>"

text \<open>No key for the video model, no speech tool; ffmpeg works.\<close>

definition sample_media_env :: media_env where
  "sample_media_env =
     \<lparr> getTempPath = (\<lambda>f. ''temp/'' @ f), hfApiKey = None,
       edge_tts = Inl (Error ''edge-tts: not found''), audio_saveToDebug = Inr (),
       silent_audio = Inr (), hf_request = (\<lambda>i. Inl (Error ''no key'')),
       placeholder_inner = (\<lambda>i. Inr ()), placeholder_outer = (\<lambda>i. Inr ()),
       subtitles_write = (\<lambda>path content. Inr ()) \<rparr>"

text \<open>The same, where ffmpeg fails on the placeholder of the second cue.\<close>

definition failing_media_env :: media_env where
  "failing_media_env =
     sample_media_env
       \<lparr> placeholder_inner := (\<lambda>i. if i = 1 then Inl (Error ''ffmpeg failed'') else Inr ()),
         placeholder_outer := (\<lambda>i. if i = 1 then Inl (Error ''ffmpeg failed'') else Inr ()) \<rparr>"

section \<open>Auxiliary facts\<close>

subsection \<open>Strings\<close>








subsection \<open>Traces and uploads\<close>

lemma thenT_Inr:
  "thenT m f tr = (Inr r, tr') \<longleftrightarrow> (\<exists>x tr1. m tr = (Inr x, tr1) \<and> f x tr1 = (Inr r, tr'))"
  by (auto simp: thenT_def split: prod.splits sum.splits)

lemma progress_Inr:
  "progress j n tr = (Inr u, tr') \<longleftrightarrow> (job_progress j n = Inr () \<and> tr' = tr @ [Reported n])"
  by (auto simp: progress_def split: sum.splits)

lemma await_Inr:
  "await st r tr = (Inr x, tr') \<longleftrightarrow> (r = Inr x \<and> tr' = tr @ [Completed st])"
  by (auto simp: await_def split: sum.splits)

lemma returnT_Inr:
  "returnT y tr = (Inr x, tr') \<longleftrightarrow> (x = y \<and> tr' = tr)"
  by (auto simp: returnT_def)

lemma uploadToSocial_both:
  "uploadToSocial penv videoPath title description tags True True =
     \<lparr> youtube = url_of (uploadToYouTube penv), tiktok = url_of (uploadToTikTok penv) \<rparr>"
  by (simp add: uploadToSocial_def url_of_def Let_def split: sum.splits)

subsection \<open>Digits and padding\<close>

lemma is_digit_digit: "n < 10 \<Longrightarrow> is_digit (digit n)"
proof -
  assume "n < 10"
  then have "n \<in> {0, 1, 2, 3, 4, 5, 6, 7, 8, 9}" by auto
  then show ?thesis by (auto simp: is_digit_def digit_def)
qed

lemma digits_lt10: "n < 10 \<Longrightarrow> digits_of n = [digit n]"
  by (simp add: digits_of.simps[of n] digit_def)

lemma digits_lt100:
  assumes "10 \<le> n" "n < 100"
  shows "digits_of n = [digit (n div 10), digit (n mod 10)]"
proof -
  have "n div 10 < 10" using assms by arith
  then have "digits_of (n div 10) = [digit (n div 10)]" by (rule digits_lt10)
  then show ?thesis using assms by (simp add: digits_of.simps[of n] digit_def)
qed

lemma digits_lt1000:
  assumes "100 \<le> n" "n < 1000"
  shows "digits_of n = [digit (n div 100), digit (n div 10 mod 10), digit (n mod 10)]"
proof -
  have a: "10 \<le> n div 10" "n div 10 < 100" using assms by arith+
  have b: "n div 10 div 10 = n div 100" by arith
  from digits_lt100[OF a] b show ?thesis using assms by (simp add: digits_of.simps[of n] digit_def)
qed

lemma replicate_two: "replicate 2 c = [c, c]"
  by (simp add: numeral_2_eq_2)

lemma replicate_three: "replicate 3 c = [c, c, c]"
  by (simp add: numeral_3_eq_3)

lemma pad2: "n < 100 \<Longrightarrow> padStart 2 CHR ''0'' (digits_of n) = two_digits n"
proof (cases "n < 10")
  case True
  then show ?thesis by (simp add: padStart_def two_digits_def digits_lt10 digit_def)
next
  case False
  assume "n < 100"
  with False show ?thesis by (simp add: padStart_def two_digits_def digits_lt100)
qed

lemma pad3: "n < 1000 \<Longrightarrow> padStart 3 CHR ''0'' (digits_of n) = three_digits n"
proof -
  assume n: "n < 1000"
  consider "n < 10" | "10 \<le> n" "n < 100" | "100 \<le> n" by linarith
  then show ?thesis
  proof cases
    case 1
    then show ?thesis
      by (simp add: padStart_def three_digits_def digits_lt10 digit_def replicate_two)
  next
    case 2
    then have "n div 100 = 0" by simp
    with 2 show ?thesis
      by (simp add: padStart_def three_digits_def digits_lt100 digit_def)
  next
    case 3
    with n show ?thesis by (simp add: padStart_def three_digits_def digits_lt1000)
  qed
qed

lemma rmod_bounds:
  assumes "0 < y"
  shows "0 \<le> rmod x y" and "rmod x y < y"
proof -
  have "of_int \<lfloor>x / y\<rfloor> * y \<le> x"
    by (rule iffD1[OF pos_le_divide_eq[OF assms] of_int_floor_le])
  then show "0 \<le> rmod x y" by (simp add: rmod_def mult.commute)
  have "x / y < of_int \<lfloor>x / y\<rfloor> + 1" by linarith
  then have "x < (of_int \<lfloor>x / y\<rfloor> + 1) * y"
    by (rule iffD1[OF pos_divide_less_eq[OF assms]])
  then show "rmod x y < y" by (simp add: rmod_def algebra_simps)
qed

lemma js_rem_rmod:
  assumes "0 \<le> x" "0 < y"
  shows "js_rem x y = rmod x y"
proof -
  have "0 \<le> x / y" using assms by simp
  then have "\<not> x / y < 0" by (simp add: not_less)
  then show ?thesis by (simp add: js_rem_def rmod_def js_trunc_def)
qed

lemma String_of_nonneg: "0 \<le> i \<Longrightarrow> String_of i = digits_of (nat i)"
  by (simp add: String_of_def)

lemma srt_pattern_digits:
  assumes "h < 100" "m < 60" "s < 60" "l < 1000"
  shows "srt_pattern (two_digits h @ '':'' @ two_digits m @ '':'' @ two_digits s @ '','' @ three_digits l)"
proof -
  have "h div 10 < 10" "h mod 10 < 10" "m div 10 < 10" "m mod 10 < 10" "s div 10 < 10" "s mod 10 < 10"
    "l div 100 < 10" "l div 10 mod 10 < 10" "l mod 10 < 10"
    using assms by arith+
  then show ?thesis by (simp add: two_digits_def three_digits_def is_digit_digit)
qed


subsection \<open>The loop over the visual cues\<close>

lemma single_video_Inr:
  "generateSingleVideo env i p jobId = Inr path \<Longrightarrow> path = clip_path env jobId p"
  by (auto simp: generateSingleVideo_def createPlaceholderVideo_def split: if_splits sum.splits)

lemma loop_Inr:
  "generateVideos_loop env jobId i ps acc = Inr r \<Longrightarrow>
     r = acc @ map (clip_path env jobId) ps \<and> (\<forall>k < length ps. clip_available env (i + k))"
proof (induction ps arbitrary: i acc)
  case Nil
  then show ?case by simp
next
  case (Cons p ps)
  show ?case
  proof (cases "generateSingleVideo env i p jobId")
    case (Inr path)
    then have av: "clip_available env i"
      by (auto simp: generateSingleVideo_def createPlaceholderVideo_def clip_available_def
            split: if_splits sum.splits)
    from Inr have path: "path = clip_path env jobId p" by (rule single_video_Inr)
    from Cons.prems Inr have "generateVideos_loop env jobId (Suc i) ps (acc @ [path]) = Inr r" by simp
    from Cons.IH[OF this] path av show ?thesis
      by (auto simp: less_Suc_eq_0_disj)
  next
    case (Inl e)
    show ?thesis
    proof (cases "placeholder_outer env i")
      case (Inl e')
      with \<open>generateSingleVideo env i p jobId = Inl e\<close> Cons.prems show ?thesis
        by (simp add: createPlaceholderVideo_def)
    next
      case (Inr u)
      then have av: "clip_available env i" by (simp add: clip_available_def)
      from Cons.prems Inl Inr
      have "generateVideos_loop env jobId (Suc i) ps (acc @ [clip_path env jobId p]) = Inr r"
        by (simp add: createPlaceholderVideo_def)
      from Cons.IH[OF this] av show ?thesis
        by (auto simp: less_Suc_eq_0_disj)
    qed
  qed
qed

lemma loop_available:
  "(\<forall>k < length ps. clip_available env (i + k)) \<Longrightarrow>
     generateVideos_loop env jobId i ps acc = Inr (acc @ map (clip_path env jobId) ps)"
proof (induction ps arbitrary: i acc)
  case Nil
  then show ?case by simp
next
  case (Cons p ps)
  from Cons.prems have av: "clip_available env i" by force
  from Cons.prems have rest: "\<forall>k < length ps. clip_available env (Suc i + k)" by force
  note ih = Cons.IH[OF rest]
  show ?case
  proof (cases "generateSingleVideo env i p jobId")
    case (Inr path)
    with single_video_Inr[OF Inr] ih show ?thesis by simp
  next
    case (Inl e)
    with av have "placeholder_outer env i = Inr ()"
      by (auto simp: generateSingleVideo_def createPlaceholderVideo_def clip_available_def
            split: if_splits sum.splits)
    with Inl ih show ?thesis by (simp add: createPlaceholderVideo_def)
  qed
qed

subsection \<open>The steps of the validation\<close>

lemma andThen_assoc: "andThen (andThen m f) g = andThen m (\<lambda>x. andThen (f x) g)"
  by (simp add: andThen_def split: sum.splits)

lemma andThen_Inr_iff: "andThen m f = Inr y \<longleftrightarrow> (\<exists>x. m = Inr x \<and> f x = Inr y)"
  by (simp add: andThen_def split: sum.splits)

lemma validate_steps:
  "validateScriptData data =
     andThen (ensure_script data) (\<lambda>d1. andThen (ensure_visual_prompts d1) ensure_timestamps)"
  by (simp add: validateScriptData_def ensure_script_def ensure_visual_prompts_def
        ensure_timestamps_def[abs_def] andThen_assoc)

lemma get_prop_object: "is_object d \<Longrightarrow> get_prop d k = Inr (field_of d k)"
  by (cases d) (simp_all add: field_of_def)

lemma get_prop_Inr: "get_prop d k = Inr v \<Longrightarrow> v = field_of d k"
  by (simp add: field_of_def)

lemma set_prop_object:
  "is_object d \<Longrightarrow>
     \<exists>d'. set_prop d k v = Inr d' \<and> is_object d' \<and>
          (\<forall>k'. field_of d' k' = (if k' = k then Some v else field_of d k'))"
  by (cases d) (simp_all add: field_of_def update_conv')

lemma set_prop_Inr:
  "set_prop d k v = Inr d' \<Longrightarrow>
     is_object d \<and> is_object d' \<and> (\<forall>k'. field_of d' k' = (if k' = k then Some v else field_of d k'))"
  by (cases d) (auto simp: field_of_def update_conv')

lemma ensure_script_Inr:
  assumes "ensure_script d = Inr d1"
  shows "is_object d1 \<and> truthy (field_of d1 ''script'')
       \<and> (string_or_falsy (field_of d ''script'') \<longrightarrow> nonempty_string (field_of d1 ''script''))
       \<and> (truthy (field_of d ''script'') \<longrightarrow> d1 = d)
       \<and> (\<forall>k. k \<noteq> ''script'' \<longrightarrow> field_of d1 k = field_of d k)"
proof (cases "truthy (field_of d ''script'')")
  case True
  with assms have "d1 = d"
    by (auto simp: ensure_script_def andThen_Inr_iff dest!: get_prop_Inr split: if_splits)
  moreover from True have "is_object d"
    by (cases d) (simp_all add: field_of_def)
  moreover from True have "string_or_falsy (field_of d ''script'') \<longrightarrow> nonempty_string (field_of d ''script'')"
    by (cases "field_of d ''script''" rule: string_or_falsy.cases) simp_all
  ultimately show ?thesis using True by simp
next
  case False
  with assms have "set_prop d ''script'' (JStr ''Generated video content.'') = Inr d1"
    by (auto simp: ensure_script_def andThen_Inr_iff dest!: get_prop_Inr split: if_splits)
  from set_prop_Inr[OF this] False show ?thesis by simp
qed

lemma ensure_script_total:
  "is_object d \<Longrightarrow> \<exists>d1. ensure_script d = Inr d1"
  using set_prop_object[of d "''script''" "JStr ''Generated video content.''"]
  by (auto simp: ensure_script_def andThen_def get_prop_object)

lemma ensure_visual_prompts_Inr:
  assumes "ensure_visual_prompts d = Inr d1"
  shows "nonempty_array (field_of d1 ''visual_prompts'')
       \<and> (nonempty_array (field_of d ''visual_prompts'') \<longrightarrow> d1 = d)
       \<and> (\<forall>k. k \<noteq> ''visual_prompts'' \<longrightarrow> field_of d1 k = field_of d k)"
proof (cases "nonempty_array (field_of d ''visual_prompts'')")
  case True
  with assms have "d1 = d"
    by (auto simp: ensure_visual_prompts_def andThen_Inr_iff nonempty_array_def
          dest!: get_prop_Inr split: if_splits)
  with True show ?thesis by simp
next
  case False
  with assms have "set_prop d ''visual_prompts'' default_visual_prompts = Inr d1"
    by (auto simp: ensure_visual_prompts_def andThen_Inr_iff nonempty_array_def
          dest!: get_prop_Inr split: if_splits)
  from set_prop_Inr[OF this]
  have "nonempty_array (field_of d1 ''visual_prompts'')"
    and "\<forall>k. k \<noteq> ''visual_prompts'' \<longrightarrow> field_of d1 k = field_of d k"
    by (simp_all add: nonempty_array_def default_visual_prompts_def)
  with False show ?thesis by simp
qed

lemma ensure_visual_prompts_total:
  "is_object d \<Longrightarrow> \<exists>d1. ensure_visual_prompts d = Inr d1 \<and> is_object d1"
  using set_prop_object[of d "''visual_prompts''" default_visual_prompts]
  by (auto simp: ensure_visual_prompts_def andThen_def get_prop_object)

lemma ensure_timestamps_Inr:
  assumes "ensure_timestamps d = Inr d1"
  shows "nonempty_array (field_of d1 ''timestamps'')
       \<and> (nonempty_array (field_of d ''timestamps'') \<longrightarrow> d1 = d)
       \<and> (\<forall>k. k \<noteq> ''timestamps'' \<longrightarrow> field_of d1 k = field_of d k)"
proof (cases "nonempty_array (field_of d ''timestamps'')")
  case True
  with assms have "d1 = d"
    by (auto simp: ensure_timestamps_def andThen_Inr_iff nonempty_array_def
          dest!: get_prop_Inr split: if_splits)
  with True show ?thesis by simp
next
  case False
  with assms obtain sub where
    "set_prop d ''timestamps''
       (JArr [JObj [(''start'', JNum 0), (''end'', JNum 10), (''text'', JStr sub)]] []) = Inr d1"
    by (auto simp: ensure_timestamps_def andThen_Inr_iff nonempty_array_def
          dest!: get_prop_Inr split: if_splits)
  from set_prop_Inr[OF this]
  have "nonempty_array (field_of d1 ''timestamps'')"
    and "\<forall>k. k \<noteq> ''timestamps'' \<longrightarrow> field_of d1 k = field_of d k"
    by (simp_all add: nonempty_array_def)
  with False show ?thesis by simp
qed

lemma ensure_timestamps_total:
  assumes "is_object d" "nonempty_string (field_of d ''script'')"
  shows "\<exists>d1. ensure_timestamps d = Inr d1"
proof -
  from assms(2) obtain s where s: "field_of d ''script'' = Some (JStr s)"
    by (cases "field_of d ''script''" rule: nonempty_string.cases) simp_all
  show ?thesis
    using set_prop_object[OF assms(1), of "''timestamps''"
        "JArr [JObj [(''start'', JNum 0), (''end'', JNum 10), (''text'', JStr (take 100 s))]] []"]
    by (auto simp: ensure_timestamps_def andThen_def get_prop_object[OF assms(1)] s)
qed

lemma validate_Inr:
  assumes "validateScriptData data = Inr d"
  shows "truthy (field_of d ''script'') \<and> nonempty_array (field_of d ''visual_prompts'')
         \<and> nonempty_array (field_of d ''timestamps'')
         \<and> (string_or_falsy (field_of data ''script'') \<longrightarrow> nonempty_string (field_of d ''script''))"
proof -
  from assms obtain d1 d2 where
    1: "ensure_script data = Inr d1" and 2: "ensure_visual_prompts d1 = Inr d2"
    and 3: "ensure_timestamps d2 = Inr d"
    by (auto simp: validate_steps andThen_Inr_iff)
  note a = ensure_script_Inr[OF 1] and b = ensure_visual_prompts_Inr[OF 2]
    and c = ensure_timestamps_Inr[OF 3]
  have s: "field_of d ''script'' = field_of d1 ''script''" using b c by simp
  have v: "field_of d ''visual_prompts'' = field_of d2 ''visual_prompts''" using c by simp
  show ?thesis using a b c s v by simp
qed

lemma validate_total:
  assumes "is_object data" "string_or_falsy (field_of data ''script'')"
  shows "\<exists>d. validateScriptData data = Inr d"
proof -
  from ensure_script_total[OF assms(1)] obtain d1 where 1: "ensure_script data = Inr d1" ..
  note a = ensure_script_Inr[OF 1]
  from a have o1: "is_object d1" by simp
  from ensure_visual_prompts_total[OF o1] obtain d2 where
    2: "ensure_visual_prompts d1 = Inr d2" and o2: "is_object d2" by blast
  note b = ensure_visual_prompts_Inr[OF 2]
  have "nonempty_string (field_of d2 ''script'')" using a b assms(2) by simp
  from ensure_timestamps_total[OF o2 this] obtain d where "ensure_timestamps d2 = Inr d" ..
  with 1 2 show ?thesis by (simp add: validate_steps andThen_def)
qed

lemma validate_fallback:
  "validateScriptData (json_of_ScriptData (createFallbackScript p)) =
     Inr (json_of_ScriptData (createFallbackScript p))"
  by (simp add: validateScriptData_def andThen_def json_of_ScriptData_def createFallbackScript_def)

lemma fallback_arrays:
  "nonempty_array (field_of (json_of_ScriptData (createFallbackScript p)) ''visual_prompts'')
   \<and> nonempty_array (field_of (json_of_ScriptData (createFallbackScript p)) ''timestamps'')"
  by (simp add: json_of_ScriptData_def createFallbackScript_def field_of_def nonempty_array_def)

lemma script_attempt_Inr:
  "script_attempt env p jobId = Inr d \<Longrightarrow>
     nonempty_array (field_of d ''visual_prompts'') \<and> nonempty_array (field_of d ''timestamps'')"
  by (auto simp: script_attempt_def andThen_Inr_iff dest!: validate_Inr)

subsection \<open>Rounding to doubles\<close>

text \<open>
  Rounding is monotone and keeps a value between the powers of two around it; a double
  at or above \<open>2^k\<close> is a multiple of \<open>2^(k-52)\<close>. With these, a bound on a rounded
  value comes from the rounding of one rational, which is computed.
\<close>

lemma rhe_of_int [simp]: "round_half_even (of_int k) = k"
  by (simp add: round_half_even_def)

lemma rhe_zero [simp]: "round_half_even 0 = 0"
  by (simp add: round_half_even_def)

lemma rhe_mono: "a \<le> b \<Longrightarrow> round_half_even a \<le> round_half_even b"
proof -
  assume ab: "a \<le> b"
  then have f: "\<lfloor>a\<rfloor> \<le> \<lfloor>b\<rfloor>" by (rule floor_mono)
  show ?thesis
  proof (cases "\<lfloor>a\<rfloor> = \<lfloor>b\<rfloor>")
    case True
    with ab show ?thesis by (auto simp: round_half_even_def Let_def)
  next
    case False
    with f have "\<lfloor>a\<rfloor> + 1 \<le> \<lfloor>b\<rfloor>" by simp
    moreover have "round_half_even a \<le> \<lfloor>a\<rfloor> + 1" by (simp add: round_half_even_def Let_def)
    moreover have "\<lfloor>b\<rfloor> \<le> round_half_even b" by (simp add: round_half_even_def Let_def)
    ultimately show ?thesis by linarith
  qed
qed

lemma pow2_pos [simp]: "(0::rat) < 2 powi e"
  by simp

lemma binade_bounds:
  assumes "x \<noteq> 0"
  shows "2 powi binade x \<le> \<bar>x\<bar>" and "\<bar>x\<bar> < 2 powi (binade x + 1)"
proof -
  obtain p q where pq: "quotient_of \<bar>x\<bar> = (p, q)" by (cases "quotient_of \<bar>x\<bar>")
  then have q: "0 < q" by (rule quotient_of_denom_pos)
  from pq have x: "\<bar>x\<bar> = of_int p / of_int q" by (rule quotient_of_div)
  have "0 < \<bar>x\<bar>" using assms by simp
  with x q have p: "0 < p" by (simp add: zero_less_divide_iff)
  define bp where "bp = bitlen p"
  define bq where "bq = bitlen q"
  have bp1: "1 \<le> bp" and bq1: "1 \<le> bq"
    using p q bitlen_eq_zero_iff[of p] bitlen_eq_zero_iff[of q] bitlen_nonneg[of p] bitlen_nonneg[of q]
    by (auto simp: bp_def bq_def)
  have P: "(2::rat) powi (bp - 1) \<le> of_int p" "of_int p < (2::rat) powi bp"
  proof -
    from bitlen_bounds[OF p] have a: "2 ^ nat (bp - 1) \<le> p" and b: "p < 2 ^ nat bp"
      by (simp_all add: bp_def)
    from a have "(of_int (2 ^ nat (bp - 1)) :: rat) \<le> of_int p" by (simp only: of_int_le_iff)
    then show "(2::rat) powi (bp - 1) \<le> of_int p"
      using bp1 by (simp add: power_int_nonneg_exp)
    from b have "(of_int p :: rat) < of_int (2 ^ nat bp)" by (simp only: of_int_less_iff)
    then show "of_int p < (2::rat) powi bp"
      using bp1 by (simp add: power_int_nonneg_exp)
  qed
  have Q: "(2::rat) powi (bq - 1) \<le> of_int q" "of_int q < (2::rat) powi bq"
  proof -
    from bitlen_bounds[OF q] have a: "2 ^ nat (bq - 1) \<le> q" and b: "q < 2 ^ nat bq"
      by (simp_all add: bq_def)
    from a have "(of_int (2 ^ nat (bq - 1)) :: rat) \<le> of_int q" by (simp only: of_int_le_iff)
    then show "(2::rat) powi (bq - 1) \<le> of_int q"
      using bq1 by (simp add: power_int_nonneg_exp)
    from b have "(of_int q :: rat) < of_int (2 ^ nat bq)" by (simp only: of_int_less_iff)
    then show "of_int q < (2::rat) powi bq"
      using bq1 by (simp add: power_int_nonneg_exp)
  qed
  have qpos: "(0::rat) < of_int q" using q by simp
  have lower: "2 powi (bp - bq - 1) < \<bar>x\<bar>"
  proof -
    have "(2::rat) powi (bp - bq - 1) * of_int q < 2 powi (bp - bq - 1) * 2 powi bq"
      using Q(2) by (simp add: mult_strict_left_mono)
    also have "\<dots> = 2 powi (bp - 1)" by (simp add: power_int_add[symmetric])
    also have "\<dots> \<le> of_int p" by (rule P(1))
    finally show ?thesis using qpos by (simp add: x pos_less_divide_eq)
  qed
  have upper: "\<bar>x\<bar> < 2 powi (bp - bq + 1)"
  proof -
    have "of_int p < (2::rat) powi bp" by (rule P(2))
    also have "\<dots> = 2 powi (bp - bq + 1) * 2 powi (bq - 1)" by (simp add: power_int_add[symmetric])
    also have "\<dots> \<le> 2 powi (bp - bq + 1) * of_int q"
      using Q(1) by (simp add: mult_left_mono)
    finally show ?thesis using qpos by (simp add: x pos_divide_less_eq)
  qed
  have b: "binade x = (if 2 powi (bp - bq) \<le> \<bar>x\<bar> then bp - bq else bp - bq - 1)"
    by (simp add: binade_def pq bp_def bq_def Let_def)
  show "2 powi binade x \<le> \<bar>x\<bar>" using lower by (simp add: b)
  show "\<bar>x\<bar> < 2 powi (binade x + 1)" using upper by (auto simp: b not_le)
qed

lemma pow2_less_imp: "(2::rat) powi a < 2 powi b \<Longrightarrow> a < b"
proof (rule ccontr)
  assume l: "(2::rat) powi a < 2 powi b" and "\<not> a < b"
  then have "b \<le> a" by simp
  then have "(2::rat) powi b \<le> 2 powi a" by (rule power_int_increasing) simp
  with l show False by simp
qed

lemma pow2_le_imp: "(2::rat) powi a \<le> 2 powi b \<Longrightarrow> a \<le> b"
proof (rule ccontr)
  assume l: "(2::rat) powi a \<le> 2 powi b" and "\<not> a \<le> b"
  then have "b < a" by simp
  then have "(2::rat) powi b < 2 powi a" by (rule power_int_strict_increasing) simp
  with l show False by simp
qed

lemma pow2_mono: "a \<le> b \<Longrightarrow> (2::rat) powi a \<le> 2 powi b"
  by (rule power_int_increasing) simp_all

lemma pow2_nat: "0 \<le> k \<Longrightarrow> (2::rat) powi k = of_int (2 ^ nat k)"
  by (simp add: power_int_nonneg_exp)

lemma pow2_split: "(2::rat) powi a = 2 powi (a - b) * 2 powi b"
  by (simp add: power_int_add[symmetric])

lemma fl_nonzero:
  "x \<noteq> 0 \<Longrightarrow>
     fl x = of_int (round_half_even (x / 2 powi (max (binade x) (- 1022) - 52))) *
            2 powi (max (binade x) (- 1022) - 52)"
  by (simp add: fl_def Let_def)

lemma fl_nonneg: "0 \<le> x \<Longrightarrow> 0 \<le> fl x"
proof (cases "x = 0")
  case True
  then show ?thesis by (simp add: fl_def)
next
  case False
  assume "0 \<le> x"
  define q :: rat where "q = 2 powi (max (binade x) (- 1022) - 52)"
  have q: "0 < q" by (simp add: q_def)
  have "0 \<le> x / q" using \<open>0 \<le> x\<close> q by simp
  then have "round_half_even (of_int 0) \<le> round_half_even (x / q)"
    by (intro rhe_mono) simp
  then have "0 \<le> round_half_even (x / q)" by simp
  then show ?thesis using q by (simp add: fl_nonzero[OF False] q_def[symmetric])
qed

lemma fl_ge_pow:
  assumes "2 powi e \<le> x" "- 1022 \<le> e"
  shows "2 powi e \<le> fl x"
proof -
  have x0: "0 < x" using assms(1) zero_less_power_int[of "2::rat" e] by linarith
  then have nz: "x \<noteq> 0" by simp
  note b = binade_bounds[OF nz]
  have "(2::rat) powi e < 2 powi (binade x + 1)" using assms(1) b(2) x0 by simp
  then have eb: "e \<le> binade x" using pow2_less_imp by fastforce
  then have E: "max (binade x) (- 1022) = binade x" using assms(2) by simp
  define q :: rat where "q = 2 powi (binade x - 52)"
  have q: "0 < q" by (simp add: q_def)
  have split: "(2::rat) powi binade x = of_int (2 ^ 52) * q"
    using pow2_split[of "binade x" "binade x - 52"] by (simp add: q_def)
  then have "(of_int (2 ^ 52) :: rat) * q \<le> x" using b(1) x0 by simp
  then have "(of_int (2 ^ 52) :: rat) \<le> x / q" using q by (simp add: pos_le_divide_eq)
  then have "round_half_even (of_int (2 ^ 52)) \<le> round_half_even (x / q)" by (rule rhe_mono)
  then have "2 ^ 52 \<le> round_half_even (x / q)" by (simp only: rhe_of_int)
  then have "(of_int (2 ^ 52) :: rat) \<le> of_int (round_half_even (x / q))"
    by (simp only: of_int_le_iff)
  then have "of_int (2 ^ 52) * q \<le> of_int (round_half_even (x / q)) * q"
    using q by (simp only: mult_le_cancel_right_pos)
  then have "2 powi binade x \<le> fl x"
    using split by (simp add: fl_nonzero[OF nz] E q_def[symmetric])
  with pow2_mono[OF eb] show ?thesis by linarith
qed

lemma fl_le_pow:
  assumes "0 < x" "x \<le> 2 powi k" "- 1022 \<le> k"
  shows "fl x \<le> 2 powi k"
proof -
  have nz: "x \<noteq> 0" using assms(1) by simp
  note b = binade_bounds[OF nz]
  have "(2::rat) powi binade x \<le> 2 powi k" using b(1) assms(1,2) by simp
  then have bk: "binade x \<le> k" by (rule pow2_le_imp)
  define E where "E = max (binade x) (- 1022)"
  have Ek: "E \<le> k" using bk assms(3) by (simp add: E_def)
  define q :: rat where "q = 2 powi (E - 52)"
  have q: "0 < q" by (simp add: q_def)
  have k: "(2::rat) powi k = of_int (2 ^ nat (k - E + 52)) * q"
  proof -
    have "(2::rat) powi k = 2 powi (k - E + 52) * 2 powi (E - 52)"
      by (simp add: power_int_add[symmetric])
    then show ?thesis using Ek by (simp add: q_def pow2_nat)
  qed
  have "x / q \<le> of_int (2 ^ nat (k - E + 52))"
    using assms(2) q by (simp add: k pos_divide_le_eq)
  then have "round_half_even (x / q) \<le> round_half_even (of_int (2 ^ nat (k - E + 52)))"
    by (rule rhe_mono)
  then have "round_half_even (x / q) \<le> 2 ^ nat (k - E + 52)" by (simp only: rhe_of_int)
  then have "(of_int (round_half_even (x / q)) :: rat) \<le> of_int (2 ^ nat (k - E + 52))"
    by (simp only: of_int_le_iff)
  then have "of_int (round_half_even (x / q)) * q \<le> of_int (2 ^ nat (k - E + 52)) * q"
    using q by (simp only: mult_le_cancel_right_pos)
  then show ?thesis
    by (simp add: fl_nonzero[OF nz] E_def[symmetric] q_def[symmetric] k)
qed

lemma fl_mono:
  assumes "0 \<le> x" "x \<le> y"
  shows "fl x \<le> fl y"
proof (cases "x = 0")
  case True
  then show ?thesis using fl_nonneg[of y] assms by (simp add: fl_def)
next
  case False
  then have x0: "0 < x" using assms(1) by simp
  then have y0: "0 < y" using assms(2) by simp
  have nzx: "x \<noteq> 0" and nzy: "y \<noteq> 0" using x0 y0 by simp_all
  note bx = binade_bounds[OF nzx] and "by" = binade_bounds[OF nzy]
  have "(2::rat) powi binade x < 2 powi (binade y + 1)" using bx(1) "by"(2) x0 y0 assms(2) by simp
  then have le: "binade x \<le> binade y" using pow2_less_imp by fastforce
  define Ex where "Ex = max (binade x) (- 1022)"
  define Ey where "Ey = max (binade y) (- 1022)"
  have E: "Ex \<le> Ey" using le by (simp add: Ex_def Ey_def)
  show ?thesis
  proof (cases "Ex = Ey")
    case True
    define q :: rat where "q = 2 powi (Ex - 52)"
    have q: "0 < q" by (simp add: q_def)
    have "x / q \<le> y / q" using assms(2) q by (simp add: divide_right_mono)
    then have "round_half_even (x / q) \<le> round_half_even (y / q)" by (rule rhe_mono)
    then have "(of_int (round_half_even (x / q)) :: rat) \<le> of_int (round_half_even (y / q))"
      by (simp only: of_int_le_iff)
    then have "of_int (round_half_even (x / q)) * q \<le> of_int (round_half_even (y / q)) * q"
      using q by (simp only: mult_le_cancel_right_pos)
    then show ?thesis
      by (simp add: fl_nonzero[OF nzx] fl_nonzero[OF nzy] Ex_def[symmetric] Ey_def[symmetric]
            True[symmetric] q_def[symmetric])
  next
    case False
    with E have lt: "Ex < Ey" by simp
    then have Ey: "Ey = binade y" and y1022: "- 1022 \<le> binade y"
      by (auto simp: Ex_def Ey_def)
    have "binade x + 1 \<le> binade y" using lt Ey by (simp add: Ex_def)
    then have "(2::rat) powi (binade x + 1) \<le> 2 powi binade y" by (rule pow2_mono)
    then have "x \<le> 2 powi binade y" using bx(2) x0 by simp
    from fl_le_pow[OF x0 this y1022] have "fl x \<le> 2 powi binade y" .
    moreover have "2 powi binade y \<le> fl y"
      using "by"(1) y0 y1022 by (intro fl_ge_pow) simp_all
    ultimately show ?thesis by linarith
  qed
qed

lemma double_grid:
  assumes "is_double x" "2 powi k \<le> \<bar>x\<bar>"
  shows "\<exists>n. x = of_int n * 2 powi (k - 52)"
proof -
  from assms(1) obtain m e where x: "x = of_int m * 2 powi e" and m: "\<bar>m\<bar> < 2 ^ 53"
    by (auto simp: is_double_def)
  have "\<bar>x\<bar> = of_int \<bar>m\<bar> * 2 powi e" by (simp add: x abs_mult)
  also have "\<dots> < of_int (2 ^ 53) * 2 powi e"
  proof -
    from m have "(of_int \<bar>m\<bar> :: rat) < of_int (2 ^ 53)" by (simp only: of_int_less_iff)
    then show ?thesis by (simp only: mult_less_cancel_right_pos zero_less_power_int zero_less_numeral)
  qed
  also have "\<dots> = 2 powi (53 + e)" by (simp add: power_int_add)
  finally have "(2::rat) powi k < 2 powi (53 + e)" using assms(2) by linarith
  then have "k < 53 + e" by (rule pow2_less_imp)
  then have ge: "0 \<le> e - k + 52" by simp
  have "(2::rat) powi e = 2 powi (e - k + 52) * 2 powi (k - 52)"
    by (simp add: power_int_add[symmetric])
  also have "\<dots> = of_int (2 ^ nat (e - k + 52)) * 2 powi (k - 52)"
    using ge by (simp add: pow2_nat)
  finally have "x = of_int (m * 2 ^ nat (e - k + 52)) * 2 powi (k - 52)"
    by (simp add: x)
  then show ?thesis ..
qed

subsection \<open>Quotients and products of the formatter and the reconciler\<close>

lemma grid_pred:
  fixes q :: rat
  assumes "x = of_int n * q" "0 < q" "x < of_int N * q"
  shows "x \<le> of_int N * q - q"
proof -
  from assms have "(of_int n :: rat) < of_int N" by (simp only: mult_less_cancel_right_pos)
  then have "n < N" by (simp only: of_int_less_iff)
  then have "n \<le> N - 1" by simp
  then have "(of_int n :: rat) \<le> of_int (N - 1)" by (simp only: of_int_le_iff)
  then have "of_int n * q \<le> of_int (N - 1) * q" using assms(2) by (simp only: mult_le_cancel_right_pos)
  then show ?thesis by (simp add: assms(1) algebra_simps)
qed



lemma hours_bound:
  assumes "is_double s" "0 \<le> s" "s < 360000"
  shows "fl (s / 3600) < 100"
proof (cases "s < 2 powi 18")
  case True
  have "fl (s / 3600) \<le> fl 73" using True assms(2) by (intro fl_mono) simp_all
  moreover have "fl 73 < 100" by code_simp
  ultimately show ?thesis by linarith
next
  case False
  then have "2 powi 18 \<le> \<bar>s\<bar>" using assms(2) by simp
  from double_grid[OF assms(1) this] obtain n where n: "s = of_int n * (1 / 2 ^ 34)"
    by (auto simp: power_int_minus_divide)
  have "s < of_int (360000 * 2 ^ 34) * (1 / 2 ^ 34)" using assms(3) by simp
  from grid_pred[OF n _ this] have "s \<le> 360000 - 1 / 2 ^ 34" by simp
  then have "fl (s / 3600) \<le> fl ((360000 - 1 / 2 ^ 34) / 3600)"
    using assms(2) by (intro fl_mono) simp_all
  moreover have "fl ((360000 - 1 / 2 ^ 34) / 3600) < 100" by code_simp
  ultimately show ?thesis by linarith
qed

lemma minutes_bound:
  assumes "is_double s" "0 \<le> s"
  shows "fl (rmod s 3600 / 60) < 60"
proof (cases "s < 2 powi 11")
  case True
  then have "s / 3600 < 1" by simp
  then have "\<lfloor>s / 3600\<rfloor> = 0" using assms(2) by (simp add: floor_eq_iff)
  then have "rmod s 3600 = s" by (simp add: rmod_def)
  then have "fl (rmod s 3600 / 60) \<le> fl 35" using True assms(2) by (intro fl_mono) simp_all
  moreover have "fl 35 < 60" by code_simp
  ultimately show ?thesis by linarith
next
  case False
  then have "2 powi 11 \<le> \<bar>s\<bar>" using assms(2) by simp
  from double_grid[OF assms(1) this] obtain n where n: "s = of_int n * (1 / 2 ^ 41)"
    by (auto simp: power_int_minus_divide)
  have r: "rmod s 3600 = of_int (n - 3600 * 2 ^ 41 * \<lfloor>s / 3600\<rfloor>) * (1 / 2 ^ 41)"
    by (simp add: rmod_def n algebra_simps)
  have "rmod s 3600 < of_int (3600 * 2 ^ 41) * (1 / 2 ^ 41)"
    using rmod_bounds(2)[of 3600 s] by simp
  from grid_pred[OF r _ this] have "rmod s 3600 \<le> 3600 - 1 / 2 ^ 41" by simp
  then have "fl (rmod s 3600 / 60) \<le> fl ((3600 - 1 / 2 ^ 41) / 60)"
    using rmod_bounds(1)[of 3600 s] by (intro fl_mono) simp_all
  moreover have "fl ((3600 - 1 / 2 ^ 41) / 60) < 60" by code_simp
  ultimately show ?thesis by linarith
qed

lemma millis_bound:
  assumes "is_double s" "0 \<le> s"
  shows "fl (rmod s 1 * 1000) < 1000"
proof (cases "s < 2 powi (- 1)")
  case True
  then have "s < 1" by (simp add: power_int_minus_divide)
  then have "\<lfloor>s\<rfloor> = 0" using assms(2) by (simp add: floor_eq_iff)
  then have "rmod s 1 = s" by (simp add: rmod_def)
  then have "fl (rmod s 1 * 1000) \<le> fl 500"
    using True assms(2) by (intro fl_mono) (simp_all add: power_int_minus_divide)
  moreover have "fl 500 < 1000" by code_simp
  ultimately show ?thesis by linarith
next
  case False
  then have "2 powi (- 1) \<le> \<bar>s\<bar>" using assms(2) by simp
  from double_grid[OF assms(1) this] obtain n where n: "s = of_int n * (1 / 2 ^ 53)"
    by (auto simp: power_int_minus_divide)
  have r: "rmod s 1 = of_int (n - 2 ^ 53 * \<lfloor>s\<rfloor>) * (1 / 2 ^ 53)"
    by (simp add: rmod_def n algebra_simps)
  have "rmod s 1 < of_int (2 ^ 53) * (1 / 2 ^ 53)"
    using rmod_bounds(2)[of 1 s] by simp
  from grid_pred[OF r _ this] have "rmod s 1 \<le> 1 - 1 / 2 ^ 53" by simp
  then have "fl (rmod s 1 * 1000) \<le> fl ((1 - 1 / 2 ^ 53) * 1000)"
    using rmod_bounds(1)[of 1 s] by (intro fl_mono) simp_all
  moreover have "fl ((1 - 1 / 2 ^ 53) * 1000) < 1000" by code_simp
  ultimately show ?thesis by linarith
qed

subsection \<open>The cases of the repository's tests\<close>

text \<open>
  The values that the tests of the media and editor services expect, on the doubles their
  literals denote (1.999 and 0.123 are not decimal fractions as doubles).
\<close>

lemma formatSrtTime_tests:
  "formatSrtTime (4501347827556811 / 2251799813685248) = ''00:00:01,999''"
  "formatSrtTime (553942754166571 / 4503599627370496) = ''00:00:00,123''"
  by code_simp+



section \<open>Duration reconciliation\<close>



text \<open>
  The two probes of \<open>loopVideoToMatchAudio\<close> degrade: when the audio probe or the video
  probe fails, no instruction is issued and the video path comes back unchanged, so that
  the assembly goes on to the last step and succeeds when the concatenation and that step
  do. When both succeed and the video is the shorter one, the loop step probes the video
  once more, and a failure of that probe is a rejection, which \<open>assembleVideo\<close> hands on.
\<close>

theorem probe_failure_skips_reconciliation:
  "((\<exists>e. probe_audio env = Inl e) \<or> (\<exists>e. probe_video env = Inl e) \<longrightarrow>
      loopVideoToMatchAudio env videoPath audio jobId = (Inr videoPath, []))
   \<and> ((\<exists>e. probe_audio env = Inl e) \<or> (\<exists>e. probe_video env = Inl e) \<longrightarrow>
        merge_run env = Inr () \<longrightarrow> mux_run env = Inr () \<longrightarrow>
        fst (assembleVideo env mediaFiles jobId) = Inr (ed_getTempPath env (jobId @ ''_output.mp4'')))
   \<and> (\<forall>a v e. probe_audio env = Inr a \<and> probe_video env = Inr v \<and> v < a \<and> loop_probe env = Inl e \<longrightarrow>
        loopVideoToMatchAudio env videoPath audio jobId = (Inl e, [])
        \<and> fst (assembleVideo env mediaFiles jobId) =
            (case merge_run env of Inl e' \<Rightarrow> Inl e' | Inr _ \<Rightarrow> Inl e))"
  by (auto simp: loopVideoToMatchAudio_def loopVideo_def assembleVideo_def concatenateVideos_def
        addAudioAndSubtitles_def run_to_def Let_def split: sum.splits)

theorem probe_failure_skips_reconciliation_witness:
  "probe_audio (sample_editor_env \<lparr> probe_audio := Inl (Error ''ffprobe failed'') \<rparr>) =
     Inl (Error ''ffprobe failed'')
   \<and> loopVideoToMatchAudio (sample_editor_env \<lparr> probe_audio := Inl (Error ''ffprobe failed'') \<rparr>)
       ''temp/j_concatenated.mp4'' ''temp/j_audio.mp3'' ''j'' = (Inr ''temp/j_concatenated.mp4'', [])
   \<and> fst (assembleVideo (sample_editor_env \<lparr> probe_audio := Inl (Error ''ffprobe failed'') \<rparr>)
            sample_media_files ''j'') = Inr ''temp/j_output.mp4''"
  using probe_failure_skips_reconciliation
      [of "sample_editor_env \<lparr> probe_audio := Inl (Error ''ffprobe failed'') \<rparr>"
          "''temp/j_concatenated.mp4''" "''temp/j_audio.mp3''" "''j''" sample_media_files]
  by (simp add: sample_editor_env_def)

text \<open>
  Claim C6. A failure to probe a duration during the reconciliation is to leave the video
  path as it is and is not to end the job; the two probes of \<open>loopVideoToMatchAudio\<close> do
  so. The probe of \<open>loopVideo\<close> does not: with audio of 35 seconds and video of 10
  seconds, both read by the reconciler, a failure of the third probe makes the
  reconciliation reject instead of returning the video path, and the assembly rejects
  with the same error.
\<close>

theorem probe_failure_in_loop_step_is_fatal:
  "loop_probe (sample_editor_env \<lparr> loop_probe := Inl (Error ''ffprobe failed'') \<rparr>) =
     Inl (Error ''ffprobe failed'')
   \<and> loopVideoToMatchAudio (sample_editor_env \<lparr> loop_probe := Inl (Error ''ffprobe failed'') \<rparr>)
       ''temp/j_concatenated.mp4'' ''temp/j_audio.mp3'' ''j'' = (Inl (Error ''ffprobe failed''), [])
   \<and> fst (loopVideoToMatchAudio (sample_editor_env \<lparr> loop_probe := Inl (Error ''ffprobe failed'') \<rparr>)
       ''temp/j_concatenated.mp4'' ''temp/j_audio.mp3'' ''j'') \<noteq> Inr ''temp/j_concatenated.mp4''
   \<and> fst (assembleVideo (sample_editor_env \<lparr> loop_probe := Inl (Error ''ffprobe failed'') \<rparr>)
            sample_media_files ''j'') = Inl (Error ''ffprobe failed'')"
  by (simp add: sample_editor_env_def sample_media_files_def loopVideoToMatchAudio_def
        loopVideo_def assembleVideo_def concatenateVideos_def run_to_def Let_def)

section \<open>Subtitle path in the filter argument\<close>




section \<open>Script fallback\<close>

text \<open>
  Claim C4. The fallback script is a function of the prompt alone: the narration is a fixed
  sentence around the prompt; there are exactly three visual cues, numbered 0 to 2, of 10
  seconds each, the cinematic, close-up and wide-angle descriptors around the prompt; and
  exactly three subtitle cues over 0 to 10, 10 to 20 and 20 to 30 seconds, contiguous and
  without overlap, whose texts joined by a space are the narration.
\<close>

theorem fallback_script_shape:
  "script (createFallbackScript p) =
     ''This is a video about '' @ p @ ''. We'll explore this fascinating topic in detail.''
   \<and> map vp_prompt (visual_prompts (createFallbackScript p)) =
       [''Cinematic scene showing '' @ p, ''Close-up details of '' @ p, ''Wide angle view of '' @ p]
   \<and> map vp_duration (visual_prompts (createFallbackScript p)) = [10, 10, 10]
   \<and> map vp_index (visual_prompts (createFallbackScript p)) = [0, 1, 2]
   \<and> map (\<lambda>t. (ts_start t, ts_end t)) (timestamps (createFallbackScript p)) =
       [(0, 10), (10, 20), (20, 30)]
   \<and> contiguous (timestamps (createFallbackScript p))
   \<and> (case map ts_text (timestamps (createFallbackScript p)) of
         [a, b, c] \<Rightarrow> script (createFallbackScript p) = a @ '' '' @ b @ '' '' @ c
       | _ \<Rightarrow> False)"
  by (simp add: createFallbackScript_def)

theorem fallback_script_shape_witness:
  "script (createFallbackScript ''space exploration'') =
     ''This is a video about space exploration. We'll explore this fascinating topic in detail.''
   \<and> map vp_prompt (visual_prompts (createFallbackScript ''space exploration'')) =
       [''Cinematic scene showing space exploration'', ''Close-up details of space exploration'',
        ''Wide angle view of space exploration'']
   \<and> map (\<lambda>t. (ts_start t, ts_end t)) (timestamps (createFallbackScript ''space exploration'')) =
       [(0, 10), (10, 20), (20, 30)]"
  using fallback_script_shape[of "''space exploration''"] by simp

section \<open>Orchestrator\<close>

text \<open>
  Claim C2. When a job completes successfully and no upload destination was requested,
  the progress values reported are exactly 10, 25, 50, 75, 90, 100 in this order, they
  are non-decreasing, 25, 50 and 75 each come right after the return of the script, media
  and assembly stage, and the result has no upload URL.
\<close>

theorem progress_sequence_without_upload:
  assumes "handleVideoGeneration svc j = (Inr res, tr)"
    and "\<not> flag (uploadToYoutube (job_data j))" and "\<not> flag (uploadToTiktok (job_data j))"
  shows "reported tr = [10, 25, 50, 75, 90, 100]
       \<and> sorted (reported tr)
       \<and> tr = [Reported 10, Completed ScriptStage, Reported 25, Completed MediaStage, Reported 50,
               Completed AssemblyStage, Reported 75, Reported 90, Reported 100]
       \<and> res_uploadUrls res = \<lparr> youtube = None, tiktok = None \<rparr>
       \<and> res_success res"
  using assms
  unfolding handleVideoGeneration_def Let_def
  by (auto simp: thenT_Inr progress_Inr await_Inr returnT_Inr reported_def)

theorem progress_sequence_without_upload_witness:
  "(\<exists>res tr. handleVideoGeneration sample_services (sample_job None (Some False)) = (Inr res, tr)
      \<and> reported tr = [10, 25, 50, 75, 90, 100]
      \<and> res_uploadUrls res = \<lparr> youtube = None, tiktok = None \<rparr>)"
proof -
  obtain r t where rt: "handleVideoGeneration sample_services (sample_job None (Some False)) = (r, t)"
    by (cases "handleVideoGeneration sample_services (sample_job None (Some False))")
  have "\<exists>res. r = Inr res"
    using rt
    by (auto simp: handleVideoGeneration_def Let_def thenT_def progress_def await_def returnT_def
          sample_services_def sample_job_def flag_def)
  then obtain res where
    h: "handleVideoGeneration sample_services (sample_job None (Some False)) = (Inr res, t)"
    using rt by auto
  have y: "\<not> flag (uploadToYoutube (job_data (sample_job None (Some False))))"
    by (simp add: sample_job_def flag_def)
  have k: "\<not> flag (uploadToTiktok (job_data (sample_job None (Some False))))"
    by (simp add: sample_job_def flag_def)
  from progress_sequence_without_upload[OF h y k] h show ?thesis
    by blast
qed

section \<open>Publishing\<close>

text \<open>
  Claim C8. With both platforms requested, each upload is tried whatever the other one
  did: the key of a platform is present with its URL when its upload succeeded and absent
  when it failed. A job whose first three stages succeed then completes, with these URLs,
  after reporting 90 and 100.
\<close>

theorem publish_failures_are_independent:
  assumes "uploadToYoutube (job_data j) = Some True" and "uploadToTiktok (job_data j) = Some True"
    and "\<forall>n. job_progress j n = Inr ()"
    and "svc_generateScript svc (jd_prompt (job_data j)) (jd_jobId (job_data j)) = Inr sd"
    and "svc_generateMedia svc sd (jd_jobId (job_data j)) = Inr mf"
    and "svc_assembleVideo svc mf (jd_jobId (job_data j)) = Inr out"
    and "svc_uploadToSocial svc =
           (\<lambda>videoPath title description tags y t.
              Inr (uploadToSocial penv videoPath title description tags y t))"
  shows "handleVideoGeneration svc j =
           (Inr \<lparr> res_success = True, res_jobId = jd_jobId (job_data j), res_finalVideoPath = out,
                  res_uploadUrls = \<lparr> youtube = url_of (uploadToYouTube penv),
                                      tiktok = url_of (uploadToTikTok penv) \<rparr>,
                  res_scriptData = sd \<rparr>,
            [Reported 10, Completed ScriptStage, Reported 25, Completed MediaStage, Reported 50,
             Completed AssemblyStage, Reported 75, Completed PublishStage, Reported 90,
             Reported 100])
       \<and> uploadToSocial penv videoPath title description tags True True =
           \<lparr> youtube = url_of (uploadToYouTube penv), tiktok = url_of (uploadToTikTok penv) \<rparr>
       \<and> (\<forall>e u. uploadToYouTube penv = Inl e \<and> uploadToTikTok penv = Inr u \<longrightarrow>
             uploadToSocial penv videoPath title description tags True True =
               \<lparr> youtube = None, tiktok = Some u \<rparr>)
       \<and> (\<forall>e u. uploadToYouTube penv = Inr u \<and> uploadToTikTok penv = Inl e \<longrightarrow>
             uploadToSocial penv videoPath title description tags True True =
               \<lparr> youtube = Some u, tiktok = None \<rparr>)"
  using assms
  unfolding handleVideoGeneration_def Let_def
  by (simp add: thenT_def progress_def await_def returnT_def flag_def uploadToSocial_both url_of_def)

theorem publish_failures_are_independent_witness:
  "uploadToYouTube sample_publisher_env =
     Inl (Error ''YouTube client not initialized. Please configure YouTube credentials.'')
   \<and> fst (handleVideoGeneration
            (sample_services \<lparr> svc_uploadToSocial :=
               (\<lambda>videoPath title description tags y t.
                  Inr (uploadToSocial sample_publisher_env videoPath title description tags y t)) \<rparr>)
            (sample_job (Some True) (Some True))) =
       Inr \<lparr> res_success = True, res_jobId = ''j'', res_finalVideoPath = ''temp/j_output.mp4'',
              res_uploadUrls = \<lparr> youtube = None,
                                  tiktok = Some ''https://tiktok.com/@user/video/placeholder'' \<rparr>,
              res_scriptData = ''script about space'' \<rparr>"
  using publish_failures_are_independent
      [of "sample_job (Some True) (Some True)"
          "sample_services \<lparr> svc_uploadToSocial :=
               (\<lambda>videoPath title description tags y t.
                  Inr (uploadToSocial sample_publisher_env videoPath title description tags y t)) \<rparr>"
          "''script about space''" "''temp/j_audio.mp3''" "''temp/j_output.mp4''"
          sample_publisher_env]
  by (simp add: sample_services_def sample_job_def sample_publisher_env_def url_of_def
        uploadToYouTube_def uploadToTikTok_def)

section \<open>Subtitle timestamps\<close>

text \<open>
  Claim C3, as the code has it. For every number of seconds from 0 to less than 360000
  (one hundred hours) the formatter returns the two digits of \<open>floor(seconds / 3600)\<close>,
  a colon, the two digits of \<open>floor((seconds mod 3600) / 60)\<close>, a colon, the two digits
  of \<open>floor(seconds mod 60)\<close>, a comma and the three digits of
  \<open>floor((seconds mod 1) * 1000)\<close>, with the quotients and the product as the doubles the
  code computes: a string of the shape \<open>\d{2}:\d{2}:\d{2},\d{3}\<close>. It returns
  \<open>00:00:00,000\<close> for 0, \<open>01:01:05,000\<close> for 3665 and \<open>01:02:03,005\<close> for 3723.005, that
  is, for the double this literal denotes.
\<close>

theorem srt_time_format:
  "(is_double s \<and> 0 \<le> s \<and> s < 360000 \<longrightarrow>
      formatSrtTime s =
        two_digits (nat \<lfloor>fdiv s 3600\<rfloor>) @ '':'' @
        two_digits (nat \<lfloor>fdiv (rmod s 3600) 60\<rfloor>) @ '':'' @
        two_digits (nat \<lfloor>rmod s 60\<rfloor>) @ '','' @
        three_digits (nat \<lfloor>fmul (rmod s 1) 1000\<rfloor>)
      \<and> srt_pattern (formatSrtTime s))
   \<and> formatSrtTime 0 = ''00:00:00,000''
   \<and> formatSrtTime 3665 = ''01:01:05,000''
   \<and> formatSrtTime (4093487287768187 / 1099511627776) = ''01:02:03,005''"
proof -
  have general: "formatSrtTime s =
        two_digits (nat \<lfloor>fdiv s 3600\<rfloor>) @ '':'' @
        two_digits (nat \<lfloor>fdiv (rmod s 3600) 60\<rfloor>) @ '':'' @
        two_digits (nat \<lfloor>rmod s 60\<rfloor>) @ '','' @
        three_digits (nat \<lfloor>fmul (rmod s 1) 1000\<rfloor>)
      \<and> srt_pattern (formatSrtTime s)"
    if assms: "is_double s" "0 \<le> s" "s < 360000"
  proof -
    have h: "0 \<le> \<lfloor>fdiv s 3600\<rfloor>" "\<lfloor>fdiv s 3600\<rfloor> < 100"
      using hours_bound[OF assms] fl_nonneg[of "s / 3600"] assms(2)
      by (simp_all add: fdiv_def floor_less_iff)
    have m: "0 \<le> \<lfloor>fdiv (rmod s 3600) 60\<rfloor>" "\<lfloor>fdiv (rmod s 3600) 60\<rfloor> < 60"
      using minutes_bound[OF assms(1,2)] fl_nonneg[of "rmod s 3600 / 60"] rmod_bounds(1)[of 3600 s]
      by (simp_all add: fdiv_def floor_less_iff)
    have c: "0 \<le> \<lfloor>rmod s 60\<rfloor>" "\<lfloor>rmod s 60\<rfloor> < 60"
      using rmod_bounds[of 60 s] by (simp_all add: floor_less_iff)
    have l: "0 \<le> \<lfloor>fmul (rmod s 1) 1000\<rfloor>" "\<lfloor>fmul (rmod s 1) 1000\<rfloor> < 1000"
      using millis_bound[OF assms(1,2)] fl_nonneg[of "rmod s 1 * 1000"] rmod_bounds(1)[of 1 s]
      by (simp_all add: fmul_def floor_less_iff)
    have n: "nat \<lfloor>fdiv s 3600\<rfloor> < 100" "nat \<lfloor>fdiv (rmod s 3600) 60\<rfloor> < 60"
      "nat \<lfloor>rmod s 60\<rfloor> < 60" "nat \<lfloor>fmul (rmod s 1) 1000\<rfloor> < 1000"
      using h m c l by linarith+
    have p: "padStart 2 CHR ''0'' (digits_of (nat \<lfloor>fdiv s 3600\<rfloor>)) =
               two_digits (nat \<lfloor>fdiv s 3600\<rfloor>)"
      "padStart 2 CHR ''0'' (digits_of (nat \<lfloor>fdiv (rmod s 3600) 60\<rfloor>)) =
         two_digits (nat \<lfloor>fdiv (rmod s 3600) 60\<rfloor>)"
      "padStart 2 CHR ''0'' (digits_of (nat \<lfloor>rmod s 60\<rfloor>)) = two_digits (nat \<lfloor>rmod s 60\<rfloor>)"
      "padStart 3 CHR ''0'' (digits_of (nat \<lfloor>fmul (rmod s 1) 1000\<rfloor>)) =
         three_digits (nat \<lfloor>fmul (rmod s 1) 1000\<rfloor>)"
      using n by (simp_all add: pad2 pad3)
    have eq: "formatSrtTime s =
        two_digits (nat \<lfloor>fdiv s 3600\<rfloor>) @ '':'' @
        two_digits (nat \<lfloor>fdiv (rmod s 3600) 60\<rfloor>) @ '':'' @
        two_digits (nat \<lfloor>rmod s 60\<rfloor>) @ '','' @
        three_digits (nat \<lfloor>fmul (rmod s 1) 1000\<rfloor>)"
      using assms h m c l
      by (simp add: formatSrtTime_def Let_def js_rem_rmod String_of_nonneg p)
    have "srt_pattern (formatSrtTime s)"
      unfolding eq using n by (intro srt_pattern_digits) simp_all
    with eq show ?thesis ..
  qed
  have e0: "formatSrtTime 0 = ''00:00:00,000''" by code_simp
  have e1: "formatSrtTime 3665 = ''01:01:05,000''" by code_simp
  have e3: "formatSrtTime (4093487287768187 / 1099511627776) = ''01:02:03,005''" by code_simp
  from general e0 e1 e3 show ?thesis by blast
qed

theorem srt_time_format_witness:
  "is_double (503 / 4) \<and> (0::rat) \<le> 503 / 4 \<and> (503 / 4 :: rat) < 360000
   \<and> srt_pattern (formatSrtTime (503 / 4))
   \<and> formatSrtTime (503 / 4) = ''00:02:05,750''"
proof -
  have d: "is_double (503 / 4)"
    unfolding is_double_def by (rule exI[of _ 503], rule exI[of _ "- 2"]) simp
  have b: "(0::rat) \<le> 503 / 4 \<and> (503 / 4 :: rat) < 360000" by simp
  have v: "two_digits (nat \<lfloor>fdiv (503 / 4) 3600\<rfloor>) @ '':'' @
           two_digits (nat \<lfloor>fdiv (rmod (503 / 4) 3600) 60\<rfloor>) @ '':'' @
           two_digits (nat \<lfloor>rmod (503 / 4) 60\<rfloor>) @ '','' @
           three_digits (nat \<lfloor>fmul (rmod (503 / 4) 1) 1000\<rfloor>) = ''00:02:05,750''"
    by code_simp
  from srt_time_format[of "503 / 4"] d b
  have "formatSrtTime (503 / 4) =
          two_digits (nat \<lfloor>fdiv (503 / 4) 3600\<rfloor>) @ '':'' @
          two_digits (nat \<lfloor>fdiv (rmod (503 / 4) 3600) 60\<rfloor>) @ '':'' @
          two_digits (nat \<lfloor>rmod (503 / 4) 60\<rfloor>) @ '','' @
          three_digits (nat \<lfloor>fmul (rmod (503 / 4) 1) 1000\<rfloor>)"
    and "srt_pattern (formatSrtTime (503 / 4))"
    by blast+
  with d b v show ?thesis by metis
qed

text \<open>
  The claim as the specification states it fails from one hundred hours on: the hours
  are padded to two characters at least, not cut, so that 360000 seconds are rendered
  with three digits of hours.
\<close>

theorem srt_time_format_hundred_hours:
  "is_double 360000 \<and> (0::rat) \<le> 360000 \<and> formatSrtTime 360000 = ''100:00:00,000''
   \<and> \<not> srt_pattern (formatSrtTime 360000)"
proof -
  have "is_double 360000"
    unfolding is_double_def by (rule exI[of _ 360000], rule exI[of _ 0]) simp
  moreover have "formatSrtTime 360000 = ''100:00:00,000''" by code_simp
  ultimately show ?thesis by simp
qed

section \<open>Clip stage\<close>

text \<open>
  Claim C7, as the code has it. Whenever the clip stage returns, its result has one path
  per visual cue, in the order of the cues, and the entry of a cue is the clip path of
  that cue, whether the clip was generated or replaced by its placeholder. The stage
  returns exactly when a clip can be produced for every cue, by the video model or by one
  of the two runs of the placeholder command; when the placeholder of a cue cannot be
  created either, the stage raises.
\<close>

theorem clip_paths_follow_cues:
  "(\<forall>paths. generateVideos env ps jobId = Inr paths \<longrightarrow>
      paths = map (clip_path env jobId) ps \<and> length paths = length ps)
   \<and> ((\<exists>paths. generateVideos env ps jobId = Inr paths) \<longleftrightarrow> (\<forall>i < length ps. clip_available env i))
   \<and> ((\<forall>i < length ps. clip_available env i) \<longrightarrow>
        generateVideos env ps jobId = Inr (map (clip_path env jobId) ps))"
proof -
  have a: "paths = map (clip_path env jobId) ps \<and> (\<forall>i < length ps. clip_available env i)"
    if "generateVideos env ps jobId = Inr paths" for paths
    using loop_Inr[of env jobId 0 ps "[]" paths] that by (simp add: generateVideos_def)
  have b: "generateVideos env ps jobId = Inr (map (clip_path env jobId) ps)"
    if "\<forall>i < length ps. clip_available env i"
    using loop_available[of ps env 0 jobId "[]"] that by (simp add: generateVideos_def)
  have len: "length paths = length ps" if "generateVideos env ps jobId = Inr paths" for paths
  proof -
    from a[OF that] have "paths = map (clip_path env jobId) ps" ..
    then show ?thesis by simp
  qed
  from a len have 1: "\<forall>paths. generateVideos env ps jobId = Inr paths \<longrightarrow>
      paths = map (clip_path env jobId) ps \<and> length paths = length ps"
    by blast
  from a b have 2: "(\<exists>paths. generateVideos env ps jobId = Inr paths) \<longleftrightarrow>
      (\<forall>i < length ps. clip_available env i)"
    by blast
  from 1 2 b show ?thesis by blast
qed

theorem clip_paths_follow_cues_witness:
  "clip_available sample_media_env 0 \<and> clip_available sample_media_env 1
   \<and> clip_available sample_media_env 2
   \<and> generateVideos sample_media_env (visual_prompts (createFallbackScript ''space'')) ''j'' =
       Inr [''temp/j_clip_0.mp4'', ''temp/j_clip_1.mp4'', ''temp/j_clip_2.mp4'']"
proof -
  have av: "\<forall>i < length (visual_prompts (createFallbackScript ''space'')).
              clip_available sample_media_env i"
    by (simp add: clip_available_def sample_media_env_def)
  have v: "map (clip_path sample_media_env ''j'') (visual_prompts (createFallbackScript ''space'')) =
             [''temp/j_clip_0.mp4'', ''temp/j_clip_1.mp4'', ''temp/j_clip_2.mp4'']"
    by (simp add: createFallbackScript_def clip_path_def sample_media_env_def String_of_def
          digits_of.simps)
  from clip_paths_follow_cues[of sample_media_env "visual_prompts (createFallbackScript ''space'')" "''j''"]
    av
  have "generateVideos sample_media_env (visual_prompts (createFallbackScript ''space'')) ''j'' =
          Inr (map (clip_path sample_media_env ''j'') (visual_prompts (createFallbackScript ''space'')))"
    by blast
  with v show ?thesis by (simp add: clip_available_def sample_media_env_def)
qed

text \<open>
  The claim as the specification states it fails where a placeholder cannot be created:
  with three cues and an ffmpeg that fails on the placeholder of the second one, the stage
  raises, and no path is returned for the first and the third cue either.
\<close>

theorem clip_stage_raises_without_placeholder:
  "generateVideos failing_media_env (visual_prompts (createFallbackScript ''space'')) ''j'' =
     Inl (Error ''ffmpeg failed'')"
  by (simp add: generateVideos_def createFallbackScript_def failing_media_env_def
        sample_media_env_def generateSingleVideo_def createPlaceholderVideo_def)

section \<open>Fallbacks of the stage adapters\<close>

text \<open>
  Claim C5, as the code has it. A failure of the attempt is never handed to the caller.
  The script stage, once configured, always returns: the fallback script when the model
  call fails, when its answer is not JSON, or when anything else in the attempt raises.
  The audio stage and the clip generation of one cue return the path of the fallback
  whenever the ffmpeg command that creates the fallback succeeds, and the only error they
  can raise is the failure of that command.
\<close>

theorem stage_fallbacks:
  "(genAI senv \<longrightarrow>
      (\<exists>d. generateScript senv p jobId = Inr d)
      \<and> (\<forall>e. script_attempt senv p jobId = Inl e \<longrightarrow>
            generateScript senv p jobId = Inr (json_of_ScriptData (createFallbackScript p)))
      \<and> (\<forall>e. generateContent senv p = Inl e \<longrightarrow>
            generateScript senv p jobId = Inr (json_of_ScriptData (createFallbackScript p)))
      \<and> (\<forall>t e. generateContent senv p = Inr t \<and> JSON_parse senv (strip_code_fences t) = Inl e \<longrightarrow>
            generateScript senv p jobId = Inr (json_of_ScriptData (createFallbackScript p))))
   \<and> (silent_audio env = Inr () \<longrightarrow>
        generateAudio env scr jobId = Inr (getTempPath env (jobId @ ''_audio.mp3'')))
   \<and> (\<forall>e. generateAudio env scr jobId = Inl e \<longrightarrow> silent_audio env = Inl e)
   \<and> (placeholder_inner env i = Inr () \<longrightarrow>
        generateSingleVideo env i c jobId = Inr (clip_path env jobId c))
   \<and> (\<forall>e. generateSingleVideo env i c jobId = Inl e \<longrightarrow> placeholder_inner env i = Inl e)"
proof -
  have s1: "\<exists>d. generateScript senv p jobId = Inr d" if "genAI senv"
    using that by (simp add: generateScript_def split: sum.splits)
  have s2: "generateScript senv p jobId = Inr (json_of_ScriptData (createFallbackScript p))"
    if "genAI senv" "script_attempt senv p jobId = Inl e" for e
    using that by (simp add: generateScript_def)
  have s3: "script_attempt senv p jobId = Inl e" if "generateContent senv p = Inl e" for e
    using that by (simp add: script_attempt_def andThen_def)
  have s4: "generateScript senv p jobId = Inr (json_of_ScriptData (createFallbackScript p))"
    if "genAI senv" "generateContent senv p = Inr t" "JSON_parse senv (strip_code_fences t) = Inl e"
    for t e
    using that
    by (simp add: generateScript_def script_attempt_def andThen_def validate_fallback
          split: sum.splits)
  have a1: "generateAudio env scr jobId = Inr (getTempPath env (jobId @ ''_audio.mp3''))"
    if "silent_audio env = Inr ()"
    using that by (simp add: generateAudio_def createSilentAudio_def split: sum.splits)
  have a2: "silent_audio env = Inl e" if "generateAudio env scr jobId = Inl e" for e
    using that by (simp add: generateAudio_def createSilentAudio_def split: sum.splits)
  have c1: "generateSingleVideo env i c jobId = Inr (clip_path env jobId c)"
    if "placeholder_inner env i = Inr ()"
    using that by (simp add: generateSingleVideo_def createPlaceholderVideo_def split: sum.splits)
  have c2: "placeholder_inner env i = Inl e" if "generateSingleVideo env i c jobId = Inl e" for e
    using that
    by (simp add: generateSingleVideo_def createPlaceholderVideo_def split: sum.splits if_splits)
  from s1 s2 s3 s4 a1 a2 c1 c2 show ?thesis by blast
qed

theorem stage_fallbacks_witness:
  "edge_tts sample_media_env = Inl (Error ''edge-tts: not found'')
   \<and> silent_audio sample_media_env = Inr ()
   \<and> generateAudio sample_media_env ''narration'' ''j'' = Inr ''temp/j_audio.mp3''"
  using stage_fallbacks[of _ _ "''j''" sample_media_env "''narration''"]
  by (simp add: sample_media_env_def)

text \<open>
  The claim as the specification states it fails where the fallback itself cannot be made:
  the speech tool is missing and ffmpeg fails on the silent track, and the audio stage
  raises instead of returning a fallback.
\<close>

theorem audio_fallback_failure_is_raised:
  "edge_tts (sample_media_env \<lparr> silent_audio := Inl (Error ''ffmpeg failed'') \<rparr>) =
     Inl (Error ''edge-tts: not found'')
   \<and> generateAudio (sample_media_env \<lparr> silent_audio := Inl (Error ''ffmpeg failed'') \<rparr>)
        ''narration'' ''j'' = Inl (Error ''ffmpeg failed'')"
  by (simp add: sample_media_env_def generateAudio_def createSilentAudio_def andThen_def)

section \<open>Validation of the script object\<close>

text \<open>
  What the validation ensures. Whenever the validation step returns, the script field
  of its result is truthy and \<open>visual_prompts\<close> and \<open>timestamps\<close> are non-empty arrays.
  For an object whose script field is absent, falsy or a string it does return, and the
  script field of the result is a non-empty string. Every script object that
  \<open>generateScript\<close> returns has a non-empty array of visual cues and a non-empty array of
  subtitle cues.
\<close>

theorem validated_script_shape:
  "(is_object data \<and> string_or_falsy (field_of data ''script'') \<longrightarrow>
      (\<exists>d. validateScriptData data = Inr d \<and> nonempty_string (field_of d ''script'')
           \<and> nonempty_array (field_of d ''visual_prompts'')
           \<and> nonempty_array (field_of d ''timestamps'')))
   \<and> (\<forall>d. validateScriptData data = Inr d \<longrightarrow>
         truthy (field_of d ''script'') \<and> nonempty_array (field_of d ''visual_prompts'')
         \<and> nonempty_array (field_of d ''timestamps''))
   \<and> (\<forall>d. generateScript env p jobId = Inr d \<longrightarrow>
         nonempty_array (field_of d ''visual_prompts'') \<and> nonempty_array (field_of d ''timestamps''))"
proof (intro conjI impI allI)
  assume a: "is_object data \<and> string_or_falsy (field_of data ''script'')"
  then obtain d where d: "validateScriptData data = Inr d" using validate_total by blast
  from validate_Inr[OF d] a d
  show "\<exists>d. validateScriptData data = Inr d \<and> nonempty_string (field_of d ''script'')
           \<and> nonempty_array (field_of d ''visual_prompts'')
           \<and> nonempty_array (field_of d ''timestamps'')"
    by blast
next
  fix d assume "validateScriptData data = Inr d"
  from validate_Inr[OF this]
  show "truthy (field_of d ''script'')" "nonempty_array (field_of d ''visual_prompts'')"
    "nonempty_array (field_of d ''timestamps'')" by simp_all
next
  fix d assume g: "generateScript env p jobId = Inr d"
  have "nonempty_array (field_of d ''visual_prompts'') \<and> nonempty_array (field_of d ''timestamps'')"
  proof (cases "script_attempt env p jobId")
    case (Inl e)
    with g have "d = json_of_ScriptData (createFallbackScript p)"
      by (auto simp: generateScript_def andThen_Inr_iff split: if_splits)
    then show ?thesis using fallback_arrays by simp
  next
    case (Inr d')
    show ?thesis
    proof (cases "genAI env")
      case True
      with g Inr have "d = d'" by (simp add: generateScript_def)
      with script_attempt_Inr[OF Inr] show ?thesis by simp
    next
      case False
      with g have "d = json_of_ScriptData (createFallbackScript p)"
        by (auto simp: generateScript_def andThen_Inr_iff)
      then show ?thesis using fallback_arrays by simp
    qed
  qed
  then show "nonempty_array (field_of d ''visual_prompts'')"
    "nonempty_array (field_of d ''timestamps'')" by simp_all
qed


theorem validated_script_shape_witness:
  "is_object (JObj []) \<and> string_or_falsy (field_of (JObj []) ''script'')
   \<and> (\<exists>d. validateScriptData (JObj []) = Inr d \<and> nonempty_string (field_of d ''script'')
           \<and> nonempty_array (field_of d ''visual_prompts'')
           \<and> nonempty_array (field_of d ''timestamps''))"
  using validated_script_shape[of "JObj []"] by (simp add: field_of_def)

text \<open>
  Claim C10. The validation step is to return, for an object of any shape, a script
  object whose script field is a non-empty string and whose two arrays are non-empty.
  The test of the script field is one of truthiness only, where the arrays are tested
  with \<open>Array.isArray\<close>: the number 42 is kept as the script when both arrays are there,
  and the validation raises a TypeError when the subtitle cues have to be built from it.
\<close>

theorem truthy_script_of_other_type_is_kept:
  "validateScriptData
     (JObj [(''script'', JNum 42), (''visual_prompts'', JArr [JNull] []),
            (''timestamps'', JArr [JNull] [])]) =
     Inr (JObj [(''script'', JNum 42), (''visual_prompts'', JArr [JNull] []),
                (''timestamps'', JArr [JNull] [])])
   \<and> \<not> nonempty_string
         (field_of (JObj [(''script'', JNum 42), (''visual_prompts'', JArr [JNull] []),
                          (''timestamps'', JArr [JNull] [])]) ''script'')
   \<and> validateScriptData (JObj [(''script'', JNum 42)]) =
       Inl (TypeError ''data.script.substring is not a function'')"
  by (simp add: validateScriptData_def andThen_def field_of_def default_visual_prompts_def)

theorem truthy_script_of_other_type_is_kept_witness:
  "validateScriptData (JObj [(''script'', JNum 42)]) =
     Inl (TypeError ''data.script.substring is not a function'')"
  using truthy_script_of_other_type_is_kept by (rule conjunct2[OF conjunct2])

end
